theory Spec2Isabelle
  imports Complex_Main "HOL-Library.Multiset" "HOL-Library.AList" "HOL-Library.Sublist"
begin

section \<open>Python string primitives used by the views\<close>

text \<open>
  The views in \<^verbatim>\<open>backend/app/views/functional.py\<close> work on Python strings. A string is a
  list of characters; the three library calls the search and recommendation code relies on
  are \<^verbatim>\<open>str.split()\<close> (split at runs of whitespace, no empty words),
  \<^verbatim>\<open>" ".join(words)\<close> and \<^verbatim>\<open>re.sub("#", " ", text)\<close>.
\<close>

definition py_isspace :: "char \<Rightarrow> bool" where
  "py_isspace c = (c \<in> set [CHR 0x09, CHR 0x0A, CHR 0x0B, CHR 0x0C, CHR 0x0D,
                             CHR 0x1C, CHR 0x1D, CHR 0x1E, CHR 0x1F, CHR 0x20,
                             CHR 0x85, CHR 0xA0])"

fun split_acc :: "string \<Rightarrow> string \<Rightarrow> string list" where
  "split_acc cur [] = (if cur = [] then [] else [cur])"
| "split_acc cur (c # cs) =
     (if py_isspace c
      then (if cur = [] then split_acc [] cs else cur # split_acc [] cs)
      else split_acc (cur @ [c]) cs)"

definition py_split :: "string \<Rightarrow> string list" where
  "py_split s = split_acc [] s"

fun py_join :: "string \<Rightarrow> string list \<Rightarrow> string" where
  "py_join sep [] = []"
| "py_join sep [w] = w"
| "py_join sep (w # v # ws) = w @ sep @ py_join sep (v # ws)"

definition word :: "string \<Rightarrow> bool" where
  \<comment> \<open>a non-empty string without whitespace\<close>
  "word v = (v \<noteq> [] \<and> list_all (\<lambda>c. \<not> py_isspace c) v)"

definition nohash :: "string \<Rightarrow> string" where
  \<comment> \<open>\<^verbatim>\<open>re.sub("#", " ", text)\<close>\<close>
  "nohash text = map (\<lambda>c. if c = CHR ''#'' then CHR '' '' else c) text"

section \<open>Recommendation: explore terms (\<^verbatim>\<open>get_recommendations\<close>, lines 896-910)\<close>

text \<open>
  \<^verbatim>\<open>TextBlob(text).noun_phrases\<close> is an external library call, \<^verbatim>\<open>list(set(xs))\<close> enumerates a
  Python set in an order the language does not fix, and \<^verbatim>\<open>random.shuffle\<close> permutes a list in
  place with the process's random generator. The three are parameters of the model:
  \<open>noun_phrases\<close>, \<open>list_set\<close> and \<open>shuffle\<close>.
\<close>

definition default_search_text :: string where
  "default_search_text =
     ''transformer natural language processing illinois machine learning startup neural network hack hacker technology future explanation application building coding search engine computer vision recurrent classification generation chatgpt gpt3 data''"

definition explore_text :: "(string \<Rightarrow> string list) \<Rightarrow> (string list \<Rightarrow> string list) \<Rightarrow> string \<Rightarrow> string" where
  \<comment> \<open>lines 896-903: \<open>search_text\<close> before the cut to ten terms\<close>
  "explore_text noun_phrases list_set full_text =
     (let search_text =
            (if length full_text > 3
             then '' '' @ py_join '' '' (list_set [x \<leftarrow> noun_phrases full_text. length x > 3])
             else [])
      in if search_text = [] then default_search_text else search_text)"

definition explore_split_text :: "(string \<Rightarrow> string list) \<Rightarrow> (string list \<Rightarrow> string list) \<Rightarrow> string \<Rightarrow> string list" where
  \<comment> \<open>line 907: \<open>split_text = search_text.split()\<close>\<close>
  "explore_split_text noun_phrases list_set full_text =
     py_split (explore_text noun_phrases list_set full_text)"

definition explore_search_text ::
  "(string \<Rightarrow> string list) \<Rightarrow> (string list \<Rightarrow> string list) \<Rightarrow> (string list \<Rightarrow> string list) \<Rightarrow> string \<Rightarrow> string" where
  \<comment> \<open>lines 908-910: the query handed to both gateways\<close>
  "explore_search_text noun_phrases list_set shuffle full_text =
     (let search_text = explore_text noun_phrases list_set full_text;
          split_text = py_split search_text
      in if length split_text > 10
         then py_join '' '' (take 10 (shuffle split_text))
         else search_text)"


section \<open>Data model\<close>

text \<open>
  A backend hit is what \<^verbatim>\<open>ElasticManager.search\<close> returns for one document: the score of the
  backend (\<^verbatim>\<open>hit["_score"]\<close>) and the fields a result item is built from. Scores are Python
  floats; the model takes them as real numbers, which is what ordering and the additive boost
  need. A result item is one entry of the list that \<^verbatim>\<open>create_page\<close> builds and the hydration
  steps complete.
\<close>

datatype source_kind = Submission | Webpage

record hit =
  hit_id :: string
  hit_kind :: source_kind
  hit_url :: string
  hit_title :: string
  hit_snippet :: string
  hit_score :: real

record item =
  source_id :: string
  source_kind :: source_kind
  score :: real
  canonical_url :: string
  title :: string
  snippet :: string
  item_hashtags :: "string list"
  rank :: int
  result_hash :: string
  redirect_url :: string

text \<open>
  A logged submission (a document of \<^verbatim>\<open>Logs\<close>): \<^verbatim>\<open>communities\<close> maps a user id to the
  communities that user added the submission to. A call of \<^verbatim>\<open>CommunityCores.update\<close> is
  recorded with its four arguments.
\<close>

record submission =
  sub_id :: string
  sub_user_id :: string
  sub_highlighted_text :: string
  sub_explanation :: string
  sub_source_url :: string
  sub_communities :: "(string \<times> string list) list"

record core_update =
  cu_community :: string
  cu_url :: string
  cu_hashtags :: "string list"
  cu_submission :: string

datatype exn =
    GatewayError | CacheError | StoreError | AttributeError | IndexError
  | InvalidId | ValueError | RequestException | JSONDecodeError | KeyError

text \<open>
  The rerank call \<^verbatim>\<open>requests.post(...)\<close> either raises (connection refused, timeout) or
  returns a response with a status code and a body; \<^verbatim>\<open>resp.json()\<close> raises on a body that is
  not JSON and \<^verbatim>\<open>resp_json["pages"]\<close> raises on a JSON object without the key.
\<close>

datatype payload = NotJson | JsonWithoutPages | JsonPages "item list"

datatype rerank_outcome = PostRaised | Response nat payload

datatype event =
    GetSubmissions string nat
  | GetCommunity string nat
  | SubmissionsSearch string "string list"
  | WebpagesSearch string
  | CoreFindOne string
  | RerankPost "item list" string
  | CacheNew
  | CacheSearch string string nat
  | CacheInsert string string "item list" nat
  | LogSearch string string "string list"
  | FindPriorSearch string
  | GetCommunities

text \<open>
  The state a request leaves to the next one: the environment variable \<^verbatim>\<open>neural_api\<close> of
  the process, and the contents of the session-page cache.
\<close>

record pstate =
  neural_api :: "string option"
  cache_store :: "string \<times> string \<Rightarrow> item list option"

text \<open>
  Everything outside the file that a request reads: the helpers of
  \<^verbatim>\<open>app.helpers.helpers\<close> whose result is a function of their argument, the two gateways,
  the stores, and the reranking service. A call that can raise answers \<open>Inl\<close> of the
  exception. \<open>list_set\<close> is \<^verbatim>\<open>list(set(xs))\<close>, whose order Python does not fix;
  \<open>add_to_index\<close> gives the hashtags that \<^verbatim>\<open>ElasticManager.add_to_index\<close> returns for a
  document. Scores are taken as the real numbers that the floats stand for; \<open>float_add\<close>
  is the addition of two floats, which rounds and so is not the addition of the reals.
\<close>

record world =
  standardize_url :: "string \<Rightarrow> string"
  display_hashtags :: "item \<Rightarrow> string list"
  build_redirect_url :: "string \<Rightarrow> string \<Rightarrow> string \<Rightarrow> string"
  noun_phrases :: "string \<Rightarrow> string list"
  list_set :: "string list \<Rightarrow> string list"
  extract_hashtags :: "string \<Rightarrow> string list"
  add_to_index :: "submission \<Rightarrow> string list"
  float_add :: "real \<Rightarrow> real \<Rightarrow> real"
  get_submissions :: "string \<Rightarrow> nat \<Rightarrow> exn + nat \<times> hit list"
  get_community :: "string \<Rightarrow> nat \<Rightarrow> exn + nat \<times> hit list"
  submissions_search :: "string \<Rightarrow> string list \<Rightarrow> exn + hit list"
  webpages_search :: "string \<Rightarrow> exn + hit list"
  core_find_one :: "string \<Rightarrow> exn + (string \<Rightarrow> string list option) option"
  rerank_post :: "item list \<Rightarrow> string \<Rightarrow> rerank_outcome"
  cache_connect :: "exn option"
  cache_read :: "exn option"
  cache_write :: "exn option"
  log_search :: "exn + string"
  find_prior_search :: "string \<Rightarrow> exn + (string \<times> bool \<times> string list) option"
  community_info :: "exn + (string \<Rightarrow> string option)"

section \<open>Sequencing calls that may raise\<close>

text \<open>
  A computation takes the process state and gives its result (or the exception that ended
  it), the new state and the external calls it made, in order.
\<close>

type_synonym 'a io = "pstate \<Rightarrow> (exn + 'a) \<times> pstate \<times> event list"

definition io_return :: "'a \<Rightarrow> 'a io" where
  "io_return x = (\<lambda>s. (Inr x, s, []))"

definition io_raise :: "exn \<Rightarrow> 'a io" where
  "io_raise e = (\<lambda>s. (Inl e, s, []))"

definition io_call :: "event \<Rightarrow> exn + 'a \<Rightarrow> 'a io" where
  \<comment> \<open>an external call: recorded, answered by the world\<close>
  "io_call ev answer = (\<lambda>s. (answer, s, [ev]))"

definition io_bind :: "'a io \<Rightarrow> ('a \<Rightarrow> 'b io) \<Rightarrow> 'b io" where
  "io_bind m f =
     (\<lambda>s. case m s of
        (Inl e, s', t) \<Rightarrow> (Inl e, s', t)
      | (Inr x, s', t) \<Rightarrow> (case f x s' of (r, s'', t') \<Rightarrow> (r, s'', t @ t')))"

definition outcome :: "'r \<times> pstate \<times> event list \<Rightarrow> 'r" where
  "outcome r = fst r"

definition state_after :: "'r \<times> pstate \<times> event list \<Rightarrow> pstate" where
  "state_after r = fst (snd r)"

definition calls :: "'r \<times> pstate \<times> event list \<Rightarrow> event list" where
  "calls r = snd (snd r)"

definition io_catch :: "'a io \<Rightarrow> (exn \<Rightarrow> 'a io) \<Rightarrow> 'a io" where
  \<comment> \<open>\<^verbatim>\<open>try: m  except Exception as e: h\<close>\<close>
  "io_catch m h =
     (\<lambda>s. case m s of
        (Inl e, s', t) \<Rightarrow> (case h e s' of (r, s'', t') \<Rightarrow> (r, s'', t @ t'))
      | (Inr x, s', t) \<Rightarrow> (Inr x, s', t))"

section \<open>Helpers of \<^verbatim>\<open>app.helpers.helpers\<close> and the session-page cache\<close>

definition digit_char :: "nat \<Rightarrow> char" where
  "digit_char d = char_of (48 + d)"

function show_nat :: "nat \<Rightarrow> string" where
  "show_nat n = (if n < 10 then [digit_char n] else show_nat (n div 10) @ [digit_char (n mod 10)])"
  by pat_completeness auto
termination
  by (relation "measure id") auto

definition show_int :: "int \<Rightarrow> string" where
  "show_int i = (if i < 0 then ''-'' @ show_nat (nat (- i)) else show_nat (nat i))"

definition build_result_hash :: "int \<Rightarrow> string \<Rightarrow> string \<Rightarrow> string" where
  \<comment> \<open>Modelled from the spec: \<^verbatim>\<open>build_result_hash\<close> is in \<^verbatim>\<open>app/helpers/helpers.py\<close>, which is
      not among the sources; the format is \<^verbatim>\<open>"{rank}_{sourceId}_{sessionId}"\<close>.\<close>
  "build_result_hash r sid session = show_int r @ ''_'' @ sid @ ''_'' @ session"

definition create_page :: "hit list \<Rightarrow> (string \<times> string) list \<Rightarrow> item list" where
  \<comment> \<open>Modelled from the spec: \<^verbatim>\<open>create_page\<close> is in \<^verbatim>\<open>app/helpers/helpers.py\<close>, which is not
      among the sources. It converts each backend hit into a result item; rank, result hash,
      redirect URL and hashtags are derived later.\<close>
  "create_page hits communities =
     map (\<lambda>h. \<lparr>source_id = hit_id h, source_kind = hit_kind h, score = hit_score h,
               canonical_url = hit_url h, title = hit_title h, snippet = hit_snippet h,
               item_hashtags = [], rank = - 1, result_hash = [], redirect_url = []\<rparr>) hits"

definition combine_pages :: "item list \<Rightarrow> item list \<Rightarrow> item list" where
  \<comment> \<open>Modelled from the spec: \<^verbatim>\<open>combine_pages\<close> is in \<^verbatim>\<open>app/helpers/helpers.py\<close>, which is not
      among the sources. Merging concatenates the candidate sets into one list.\<close>
  "combine_pages submissions_pages webpages_index_pages = submissions_pages @ webpages_index_pages"

function deduplicate :: "(string \<Rightarrow> string) \<Rightarrow> item list \<Rightarrow> item list" where
  \<comment> \<open>Modelled from the spec: \<^verbatim>\<open>deduplicate\<close> is in \<^verbatim>\<open>app/helpers/helpers.py\<close>, which is not
      among the sources. Items are grouped by normalized URL; of each group exactly one item
      is kept, the one with the highest score (the first of them when several share it), and
      the rest is discarded. The kept items stay in the order of the input.\<close>
  "deduplicate std [] = []"
| "deduplicate std (p # ps) =
     (if \<exists>q \<in> set ps. std (canonical_url q) = std (canonical_url p) \<and> score p < score q
      then deduplicate std ps
      else p # deduplicate std [q \<leftarrow> ps. std (canonical_url q) \<noteq> std (canonical_url p)])"
  by pat_completeness auto
termination
  by (relation "measure (\<lambda>(std, ps). length ps)") (auto simp: less_Suc_eq_le)

definition beaten :: "(string \<Rightarrow> string) \<Rightarrow> item \<Rightarrow> item list \<Rightarrow> bool" where
  \<comment> \<open>a later item of the same group has a higher score\<close>
  "beaten std p ps = (\<exists>q \<in> set ps. std (canonical_url q) = std (canonical_url p) \<and> score p < score q)"

definition others :: "(string \<Rightarrow> string) \<Rightarrow> item \<Rightarrow> item list \<Rightarrow> item list" where
  \<comment> \<open>the items of the other groups\<close>
  "others std p ps = [q \<leftarrow> ps. std (canonical_url q) \<noteq> std (canonical_url p)]"

definition hydrate_with_hash_url :: "world \<Rightarrow> item list \<Rightarrow> string \<Rightarrow> string \<Rightarrow> item list" where
  \<comment> \<open>Modelled from the spec: \<^verbatim>\<open>hydrate_with_hash_url\<close> is in \<^verbatim>\<open>app/helpers/helpers.py\<close>, which
      is not among the sources. The rank of an item is its position in the list; the result
      hash encodes rank, source id and session id; the redirect URL is built from the
      canonical URL, the result hash and the method.\<close>
  "hydrate_with_hash_url w pages session method =
     map (\<lambda>(i, p).
            p\<lparr>rank := int i,
              result_hash := build_result_hash (int i) (source_id p) session,
              redirect_url := build_redirect_url w (canonical_url p)
                                (build_result_hash (int i) (source_id p) session) method\<rparr>)
         (enumerate 0 pages)"

definition hydrate_with_hashtags :: "world \<Rightarrow> item list \<Rightarrow> item list" where
  \<comment> \<open>Modelled from the spec: \<^verbatim>\<open>hydrate_with_hashtags\<close> is in \<^verbatim>\<open>app/helpers/helpers.py\<close>, which
      is not among the sources. It attaches the hashtags extracted from the display text of
      each item.\<close>
  "hydrate_with_hashtags w pages = map (\<lambda>p. p\<lparr>item_hashtags := display_hashtags w p\<rparr>) pages"

definition page_size :: nat where
  "page_size = 10"

definition cache_page :: "item list \<Rightarrow> nat \<Rightarrow> item list" where
  "cache_page pages index = take page_size (drop (index * page_size) pages)"

definition Cache_init :: "world \<Rightarrow> unit io" where
  \<comment> \<open>\<^verbatim>\<open>Cache()\<close>: connecting to the store may raise.\<close>
  "Cache_init w = io_call CacheNew (case cache_connect w of None \<Rightarrow> Inr () | Some e \<Rightarrow> Inl e)"

definition Cache_search :: "world \<Rightarrow> string \<Rightarrow> string \<Rightarrow> nat \<Rightarrow> (nat \<times> item list) io" where
  \<comment> \<open>Modelled from the spec: \<^verbatim>\<open>Cache\<close> is in \<^verbatim>\<open>app/models/cache.py\<close>, which is not among the
      sources. A present key answers the total count and the requested page (empty when out
      of range); an absent key answers the empty page.\<close>
  "Cache_search w uid session index =
     (\<lambda>s. case cache_read w of
             Some e \<Rightarrow> (Inl e, s, [CacheSearch uid session index])
           | None \<Rightarrow>
               (Inr (case cache_store s (uid, session) of
                       None \<Rightarrow> (0, [])
                     | Some full \<Rightarrow> (length full, cache_page full index)),
                s, [CacheSearch uid session index]))"

definition Cache_insert :: "world \<Rightarrow> string \<Rightarrow> string \<Rightarrow> item list \<Rightarrow> nat \<Rightarrow> item list io" where
  \<comment> \<open>Modelled from the spec: \<^verbatim>\<open>Cache\<close> is in \<^verbatim>\<open>app/models/cache.py\<close>, which is not among the
      sources. The full list is stored under (user, session) and the requested page of it is
      returned.\<close>
  "Cache_insert w uid session pages index =
     (\<lambda>s. case cache_write w of
             Some e \<Rightarrow> (Inl e, s, [CacheInsert uid session pages index])
           | None \<Rightarrow>
               (Inr (cache_page pages index),
                s\<lparr>cache_store := (cache_store s)((uid, session) \<mapsto> pages)\<rparr>,
                [CacheInsert uid session pages index]))"

section \<open>\<^verbatim>\<open>cache_search\<close> (lines 1025-1155)\<close>

fun core_retrieve :: "world \<Rightarrow> string \<Rightarrow> string list \<Rightarrow> hit list \<Rightarrow> hit list io" where
  \<comment> \<open>lines 1086-1099: the loop over \<^verbatim>\<open>communities.keys()\<close>; the last argument is
      \<^verbatim>\<open>submissions_hits\<close>, which the loop extends\<close>
  "core_retrieve w url [] submissions_hits = io_return submissions_hits"
| "core_retrieve w url (community_id # rest) submissions_hits =
     io_bind (io_call (CoreFindOne community_id) (core_find_one w community_id))
       (\<lambda>community_core.
          case community_core of
            None \<Rightarrow> core_retrieve w url rest submissions_hits
          | Some core_content \<Rightarrow>
              (case core_content url of
                 None \<Rightarrow> core_retrieve w url rest submissions_hits
               | Some core_hashtags \<Rightarrow>
                   io_bind (io_call (SubmissionsSearch (py_join '' '' (list_set w core_hashtags))
                                       [community_id])
                              (submissions_search w (py_join '' '' (list_set w core_hashtags))
                                 [community_id]))
                     (\<lambda>core_hits.
                        core_retrieve w url rest
                          (submissions_hits
                           @ map (\<lambda>hit. hit\<lparr>hit_score := float_add w (hit_score hit) 100\<rparr>)
                               core_hits))))"

definition neural_rerank :: "world \<Rightarrow> item list \<Rightarrow> string \<Rightarrow> item list option io" where
  \<comment> \<open>lines 1125-1139; the result is the local variable \<^verbatim>\<open>pages\<close> when the block assigned it\<close>
  "neural_rerank w submissions_pages query =
     (\<lambda>s. case neural_api s of
             None \<Rightarrow> (Inr None, s, [])
           | Some api \<Rightarrow>
               (case rerank_post w submissions_pages query of
                  PostRaised \<Rightarrow>
                    (Inr None, s\<lparr>neural_api := None\<rparr>, [RerankPost submissions_pages query])
                | Response status_code body \<Rightarrow>
                    if status_code = 200
                    then (case body of
                            JsonPages pages \<Rightarrow>
                              (Inr (Some pages), s, [RerankPost submissions_pages query])
                          | JsonWithoutPages \<Rightarrow>
                              (Inr None, s\<lparr>neural_api := None\<rparr>, [RerankPost submissions_pages query])
                          | NotJson \<Rightarrow>
                              (Inr None, s\<lparr>neural_api := None\<rparr>, [RerankPost submissions_pages query]))
                    else (Inr None, s, [RerankPost submissions_pages query])))"

definition cache_search ::
  "world \<Rightarrow> string \<Rightarrow> string \<Rightarrow> nat \<Rightarrow> (string \<times> string) list \<Rightarrow> string \<Rightarrow> bool \<Rightarrow> bool
     \<Rightarrow> string option \<Rightarrow> (nat \<times> item list) io" where
  "cache_search w query session index communities uid own_submissions toggle_webpage_results
       url_core_retrieve =
     (if own_submissions \<or> query = []
      then
        io_bind
          (if own_submissions
           then io_call (GetSubmissions uid index) (get_submissions w uid index)
           else (case map fst communities of
                   [] \<Rightarrow> io_raise IndexError
                 | c # _ \<Rightarrow> io_call (GetCommunity c index) (get_community w c index)))
          (\<lambda>(number_of_hits, hits).
             io_return
               (number_of_hits,
                hydrate_with_hashtags w
                  (hydrate_with_hash_url w (create_page hits communities) session ''search'')))
      else
        io_bind (io_catch (io_bind (Cache_init w) (\<lambda>_. io_return True)) (\<lambda>e. io_return False))
          (\<lambda>cache.
        io_bind (if cache then Cache_search w uid session index else io_return (0, []))
          (\<lambda>(number_of_hits, page).
        if page \<noteq> [] then io_return (number_of_hits, page)
        else
        io_bind (io_call (SubmissionsSearch query (map fst communities))
                   (submissions_search w query (map fst communities)))
          (\<lambda>submissions_hits.
        io_bind (case url_core_retrieve of
                   None \<Rightarrow> io_return submissions_hits
                 | Some u \<Rightarrow>
                     core_retrieve w (standardize_url w u) (map fst communities) submissions_hits)
          (\<lambda>submissions_hits.
        io_bind (if toggle_webpage_results
                 then io_bind (io_call (WebpagesSearch query) (webpages_search w query))
                        (\<lambda>webpages_hits.
                           io_return (combine_pages (create_page submissions_hits communities)
                                        (create_page webpages_hits communities)))
                 else io_return (create_page submissions_hits communities))
          (\<lambda>submissions_pages.
        io_bind (neural_rerank w submissions_pages query)
          (\<lambda>pages.
        let pages = sort_key (\<lambda>x. - score x) submissions_pages;
            pages = deduplicate (standardize_url w) pages;
            pages = hydrate_with_hash_url w pages session ''search'';
            pages = hydrate_with_hashtags w pages;
            number_of_hits = length pages
        in io_bind (if cache then Cache_insert w uid session pages index
                    else io_raise AttributeError)
             (\<lambda>page. io_return (number_of_hits, page)))))))))"

section \<open>The endpoint \<^verbatim>\<open>search\<close> (lines 582-762)\<close>

text \<open>
  Request arguments are a dictionary of strings (\<^verbatim>\<open>request.args\<close>). An object id is
  written as the hexadecimal digits of its bytes in lower case, which is what
  \<^verbatim>\<open>str(ObjectId(x))\<close> gives.
\<close>

record user =
  user_id :: string
  user_communities :: "string list"

record request =
  remote_addr :: string
  args :: "string \<Rightarrow> string option"

datatype status = OK | BAD_REQUEST | FORBIDDEN | NOT_FOUND | INTERNAL_SERVER_ERROR

record return_obj =
  ret_search_id :: string
  ret_query :: string
  ret_total_num_results :: nat
  ret_current_page :: nat
  ret_search_results_page :: "item list"

datatype response = Error string status | Success return_obj

record search_args =
  sa_query :: string
  sa_search_id :: string
  sa_page :: nat
  sa_communities :: "(string \<times> string) list"
  sa_user_id :: string
  sa_own_submissions :: bool
  sa_toggle_webpage_results :: bool
  sa_url_core_retrieve :: "string option"

definition args_get :: "request \<Rightarrow> string \<Rightarrow> string \<Rightarrow> string" where
  "args_get req k dflt = (case args req k of None \<Rightarrow> dflt | Some v \<Rightarrow> v)"

definition is_digit :: "char \<Rightarrow> bool" where
  "is_digit c = (48 \<le> (of_char c :: nat) \<and> (of_char c :: nat) \<le> 57)"

fun parse_digits :: "nat \<Rightarrow> bool \<Rightarrow> string \<Rightarrow> nat option" where
  \<comment> \<open>decimal digits, single underscores allowed between digits\<close>
  "parse_digits acc after_digit [] = (if after_digit then Some acc else None)"
| "parse_digits acc after_digit (c # cs) =
     (if is_digit c then parse_digits (acc * 10 + (of_char c - 48)) True cs
      else if c = CHR ''_'' \<and> after_digit then parse_digits acc False cs
      else None)"

definition int_isspace :: "char \<Rightarrow> bool" where
  \<comment> \<open>the characters that \<^verbatim>\<open>int\<close> strips: the whitespace of C, and the two characters above
      127 that are whitespace for Python and that it turns into blanks first\<close>
  "int_isspace c = (c \<in> set [CHR 0x09, CHR 0x0A, CHR 0x0B, CHR 0x0C, CHR 0x0D, CHR 0x20,
                              CHR 0x85, CHR 0xA0])"

definition int_strip :: "string \<Rightarrow> string" where
  "int_strip s = rev (dropWhile int_isspace (rev (dropWhile int_isspace s)))"

definition py_int :: "string \<Rightarrow> int option" where
  \<comment> \<open>\<^verbatim>\<open>int(s)\<close> on a string: \<open>None\<close> stands for \<^verbatim>\<open>ValueError\<close>\<close>
  "py_int s =
     (case int_strip s of
        [] \<Rightarrow> None
      | c # cs \<Rightarrow>
          if c = CHR ''-'' then map_option (\<lambda>n. - int n) (parse_digits 0 False cs)
          else if c = CHR ''+'' then map_option int (parse_digits 0 False cs)
          else map_option int (parse_digits 0 False (c # cs)))"

definition is_hex :: "char \<Rightarrow> bool" where
  "is_hex c =
     (is_digit c \<or> (97 \<le> (of_char c :: nat) \<and> (of_char c :: nat) \<le> 102)
                \<or> (65 \<le> (of_char c :: nat) \<and> (of_char c :: nat) \<le> 70))"

definition hex_lower :: "char \<Rightarrow> char" where
  "hex_lower c =
     (if 65 \<le> (of_char c :: nat) \<and> (of_char c :: nat) \<le> 70
      then char_of (of_char c + (32::nat)) else c)"

definition hex_isspace :: "char \<Rightarrow> bool" where
  \<comment> \<open>the blanks that \<^verbatim>\<open>bytes.fromhex\<close> skips between two bytes\<close>
  "hex_isspace c = (c \<in> set [CHR 0x09, CHR 0x0A, CHR 0x0B, CHR 0x0C, CHR 0x0D, CHR 0x20])"

fun fromhex :: "string \<Rightarrow> string option" where
  \<comment> \<open>\<^verbatim>\<open>bytes.fromhex\<close>, the bytes written as their hexadecimal digits in lower case:
      pairs of hexadecimal digits, blanks allowed between the pairs\<close>
  "fromhex [] = Some []"
| "fromhex [c] = (if hex_isspace c then Some [] else None)"
| "fromhex (c # d # ds) =
     (if hex_isspace c then fromhex (d # ds)
      else if is_hex c \<and> is_hex d
           then map_option (\<lambda>r. hex_lower c # hex_lower d # r) (fromhex ds)
           else None)"

definition ObjectId :: "string \<Rightarrow> string option" where
  \<comment> \<open>\<^verbatim>\<open>bson.ObjectId(x)\<close> for a string: a string of 24 characters that \<^verbatim>\<open>bytes.fromhex\<close>
      accepts; \<open>None\<close> stands for \<^verbatim>\<open>bson.errors.InvalidId\<close>\<close>
  "ObjectId x = (if length x = 24 then fromhex x else None)"

definition extension_query :: "world \<Rightarrow> string \<Rightarrow> string \<Rightarrow> string \<Rightarrow> string \<Rightarrow> string option \<times> string" where
  \<comment> \<open>lines 625-650: the pair (\<^verbatim>\<open>URL_CORE_RETRIEVE\<close>, \<^verbatim>\<open>query\<close>) after the block\<close>
  "extension_query w query source highlighted_text url =
     (if (query = [] \<and> source = ''extension_open'') \<or> source = ''note_automatic''
      then
        (let URL_CORE_RETRIEVE =
               (if query = [] \<and> source = ''extension_open'' then Some url else None);
             highlighted_text_nohash = nohash highlighted_text
         in (URL_CORE_RETRIEVE,
             if highlighted_text = [] then url
             else if length (py_split highlighted_text) < 10 then highlighted_text_nohash
             else py_join '' '' (list_set w (noun_phrases w highlighted_text_nohash))))
      else (None, query))"

definition parse_page :: "request \<Rightarrow> exn + nat" where
  \<comment> \<open>lines 656-660\<close>
  "parse_page req =
     (case args req ''page'' of
        None \<Rightarrow> Inr 0
      | Some p \<Rightarrow>
          if p = ''undefined'' then Inr 0
          else (case py_int p of
                  None \<Rightarrow> Inl ValueError
                | Some i \<Rightarrow> Inr (nat (max 0 i))))"

definition build_rc_dict :: "(string \<Rightarrow> string option) \<Rightarrow> string list \<Rightarrow> (string \<times> string) list" where
  \<comment> \<open>lines 731-737: a community without an entry in \<^verbatim>\<open>communities\<close> raises inside the
      loop's own \<^verbatim>\<open>try\<close> and is skipped\<close>
  "build_rc_dict communities requested_communities =
     foldl (\<lambda>rc_dict community_id.
              case communities community_id of
                None \<Rightarrow> rc_dict
              | Some name \<Rightarrow> AList.update community_id name rc_dict)
           [] requested_communities"

definition search_session ::
  "world \<Rightarrow> user \<Rightarrow> request \<Rightarrow> string \<Rightarrow> string \<Rightarrow> bool \<Rightarrow> bool
     \<Rightarrow> (response + string \<times> string \<times> bool \<times> string list \<times> bool) io" where
  \<comment> \<open>lines 662-727: either an early response, or the search id, the query, the
      own-submissions flag, the requested communities and the webpage toggle\<close>
  "search_session w current_user req source query own_submissions toggle_webpage_results =
     (if args_get req ''search_id'' [] = []
      then
        (case (if args req ''community'' = Some ''all''
               then Inr (user_communities current_user, toggle_webpage_results)
               else (case args req ''community'' of
                       None \<Rightarrow> Inl (Error ''You do not have access to this community.'' FORBIDDEN)
                     | Some c \<Rightarrow>
                         (case ObjectId c of
                            None \<Rightarrow> Inl (Error ''Community ID is invalid.'' INTERNAL_SERVER_ERROR)
                          | Some community \<Rightarrow>
                              if community \<notin> set (user_communities current_user)
                              then Inl (Error ''You do not have access to this community.'' FORBIDDEN)
                              else Inr ([community], False)))) of
           Inl resp \<Rightarrow> io_return (Inl resp)
         | Inr (requested_communities, toggle) \<Rightarrow>
             io_bind (io_call (LogSearch source query requested_communities) (log_search w))
               (\<lambda>session.
                  io_return (Inr (session, query, own_submissions, requested_communities, toggle))))
      else
        (case ObjectId (args_get req ''search_id'' []) of
           None \<Rightarrow> io_raise InvalidId
         | Some oid \<Rightarrow>
             io_bind (io_call (FindPriorSearch oid) (find_prior_search w oid))
               (\<lambda>prior_search.
                  case prior_search of
                    Some (prior_query, prior_own_submissions, prior_community) \<Rightarrow>
                      io_return (Inr (args_get req ''search_id'' [], prior_query,
                                      prior_own_submissions, prior_community,
                                      toggle_webpage_results))
                  | None \<Rightarrow> io_return (Inl (Error ''Cannot find search to page.'' NOT_FOUND)))))"

definition search_prepare :: "world \<Rightarrow> user \<Rightarrow> request \<Rightarrow> (response + search_args) io" where
  \<comment> \<open>lines 598-749: everything before the call of \<^verbatim>\<open>cache_search\<close>\<close>
  "search_prepare w current_user req =
     (let toggle_webpage_results = True;
          query = args_get req ''query'' [];
          source = args_get req ''source'' ''webpage_search'';
          highlighted_text = args_get req ''highlighted_text'' [];
          url = args_get req ''url'' [];
          highlighted_text = take 1000 highlighted_text;
          query = take 1000 query;
          toggle_webpage_results =
            (if query \<noteq> [] \<and> CHR ''#'' \<in> set query then False else toggle_webpage_results);
          (URL_CORE_RETRIEVE, query) = extension_query w query source highlighted_text url;
          own_submissions = (args_get req ''own_submissions'' [] \<noteq> [])
      in case parse_page req of
           Inl e \<Rightarrow> io_raise e
         | Inr page \<Rightarrow>
             io_bind (search_session w current_user req source query own_submissions
                        toggle_webpage_results)
               (\<lambda>r. case r of
                  Inl resp \<Rightarrow> io_return (Inl resp)
                | Inr (session, query, own_submissions, requested_communities, toggle) \<Rightarrow>
                    io_bind (io_call GetCommunities (community_info w))
                      (\<lambda>communities.
                         let rc_dict = build_rc_dict communities requested_communities;
                             toggle = (if length rc_dict = 1
                                          \<and> length (user_communities current_user) > 1
                                       then False else toggle)
                         in io_return
                              (Inr \<lparr>sa_query = query, sa_search_id = session, sa_page = page,
                                    sa_communities = rc_dict, sa_user_id = user_id current_user,
                                    sa_own_submissions = own_submissions,
                                    sa_toggle_webpage_results = toggle,
                                    sa_url_core_retrieve = URL_CORE_RETRIEVE\<rparr>))))"

definition search_try :: "world \<Rightarrow> user \<Rightarrow> request \<Rightarrow> response io" where
  \<comment> \<open>the body of the \<^verbatim>\<open>try\<close> block, lines 598-758\<close>
  "search_try w current_user req =
     io_bind (search_prepare w current_user req)
       (\<lambda>r. case r of
          Inl resp \<Rightarrow> io_return resp
        | Inr a \<Rightarrow>
            io_bind (cache_search w (sa_query a) (sa_search_id a) (sa_page a) (sa_communities a)
                       (sa_user_id a) (sa_own_submissions a) (sa_toggle_webpage_results a)
                       (sa_url_core_retrieve a))
              (\<lambda>(total_num_results, search_results_page).
                 io_return
                   (Success \<lparr>ret_search_id = sa_search_id a, ret_query = sa_query a,
                             ret_total_num_results = total_num_results,
                             ret_current_page = sa_page a,
                             ret_search_results_page = search_results_page\<rparr>)))"

definition search :: "world \<Rightarrow> user \<Rightarrow> request \<Rightarrow> response io" where
  \<comment> \<open>lines 759-762: any exception becomes the error response\<close>
  "search w current_user req =
     io_catch (search_try w current_user req)
       (\<lambda>e. io_return (Error ''Failed to search, please try again later.'' INTERNAL_SERVER_ERROR))"

fun serve :: "(world \<times> user \<times> request) list \<Rightarrow> pstate \<Rightarrow> ((exn + response) \<times> pstate \<times> event list) list" where
  \<comment> \<open>the same process answering one search request after the other\<close>
  "serve [] s = []"
| "serve ((w, current_user, req) # later) s =
     search w current_user req s # serve later (state_after (search w current_user req s))"

section \<open>Community core updates of the submission handlers\<close>

text \<open>
  Each handler is modelled by the list of calls of \<^verbatim>\<open>CommunityCores.update\<close> it makes, in
  order, once the write to \<^verbatim>\<open>Logs\<close> was acknowledged. An exception inside a handler ends it,
  so the calls really made are a prefix of the list.
\<close>

definition without_core :: "string list \<Rightarrow> string list" where
  \<comment> \<open>\<^verbatim>\<open>[x for x in hashtags if x != "#core"]\<close>\<close>
  "without_core tags = [x \<leftarrow> tags. x \<noteq> ''#core'']"

definition text_hashtags :: "world \<Rightarrow> submission \<Rightarrow> string list" where
  \<comment> \<open>\<^verbatim>\<open>list(set(extract_hashtags(s.highlighted_text) + extract_hashtags(s.explanation)))\<close>\<close>
  "text_hashtags w sub =
     list_set w (extract_hashtags w (sub_highlighted_text sub)
                 @ extract_hashtags w (sub_explanation sub))"

definition create_submission_core_updates :: "world \<Rightarrow> string \<Rightarrow> string \<Rightarrow> submission \<Rightarrow> core_update list" where
  \<comment> \<open>\<^verbatim>\<open>create_submission_helper\<close>, lines 979-991\<close>
  "create_submission_core_updates w community source_url doc =
     (let tags = add_to_index w doc
      in if ''#core'' \<in> set tags
         then [\<lparr>cu_community = community, cu_url = standardize_url w source_url,
                cu_hashtags = without_core tags, cu_submission = sub_id doc\<rparr>]
         else [])"

definition delete_submission_core_updates :: "world \<Rightarrow> string \<Rightarrow> submission \<Rightarrow> core_update list" where
  \<comment> \<open>\<^verbatim>\<open>submission\<close>, DELETE without community, lines 326-333; a user without an entry in
      \<^verbatim>\<open>communities\<close> raises \<^verbatim>\<open>KeyError\<close> before the first call\<close>
  "delete_submission_core_updates w uid old_record =
     (if ''#core'' \<in> set (list_set w (extract_hashtags w (sub_explanation old_record)
                                        @ extract_hashtags w (sub_highlighted_text old_record)))
      then (case map_of (sub_communities old_record) uid of
              None \<Rightarrow> []
            | Some cs \<Rightarrow>
                map (\<lambda>community.
                       \<lparr>cu_community = community,
                        cu_url = standardize_url w (sub_source_url old_record),
                        cu_hashtags = [], cu_submission = sub_id old_record\<rparr>) cs)
      else [])"

definition remove_community_core_updates :: "world \<Rightarrow> string \<Rightarrow> string \<Rightarrow> submission \<Rightarrow> core_update list" where
  \<comment> \<open>\<^verbatim>\<open>submission\<close>, DELETE with a community, lines 345-369; a user without an entry in
      \<^verbatim>\<open>communities\<close> raises \<^verbatim>\<open>KeyError\<close> at line 353, before the call\<close>
  "remove_community_core_updates w uid community_id current_submission =
     (case map_of (sub_communities current_submission) uid of
        None \<Rightarrow> []
      | Some cs \<Rightarrow>
          if ''#core'' \<in> set (list_set w (extract_hashtags w (sub_explanation current_submission)
                                            @ extract_hashtags w (sub_highlighted_text current_submission)))
          then [\<lparr>cu_community = community_id,
                 cu_url = standardize_url w (sub_source_url current_submission),
                 cu_hashtags = [], cu_submission = sub_id current_submission\<rparr>]
          else [])"

definition add_community :: "string \<Rightarrow> string \<Rightarrow> (string \<times> string list) list \<Rightarrow> (string \<times> string list) list" where
  \<comment> \<open>lines 425-428: \<^verbatim>\<open>submission_communities\<close> is the dictionary of the submission itself\<close>
  "add_community uid community_id submission_communities =
     (let cs = (case map_of submission_communities uid of None \<Rightarrow> [] | Some cs \<Rightarrow> cs)
      in AList.update uid (if community_id \<in> set cs then cs else cs @ [community_id])
           submission_communities)"

definition patch_submission_core_updates ::
  "world \<Rightarrow> string \<Rightarrow> submission \<Rightarrow> string option \<Rightarrow> string option \<Rightarrow> string option
     \<Rightarrow> string option \<Rightarrow> core_update list" where
  \<comment> \<open>\<^verbatim>\<open>submission\<close>, PATCH, lines 409-430 and 453-521: \<open>sub\<close> is the record read before the
      edit, the four options are the community id and the new highlighted text, explanation
      and URL of the request\<close>
  "patch_submission_core_updates w uid sub community_id highlighted_text explanation source_url =
     (let sub = (case community_id of
                   None \<Rightarrow> sub
                 | Some c \<Rightarrow> sub\<lparr>sub_communities := add_community uid c (sub_communities sub)\<rparr>);
          added =
            (case community_id of
               None \<Rightarrow> []
             | Some c \<Rightarrow>
                 (let tags = list_set w (extract_hashtags w (sub_highlighted_text sub)
                                         @ extract_hashtags w (sub_explanation sub))
                  in if ''#core'' \<in> set tags
                     then [\<lparr>cu_community = c, cu_url = standardize_url w (sub_source_url sub),
                            cu_hashtags = without_core tags, cu_submission = sub_id sub\<rparr>]
                     else []));
          old_source_url = sub_source_url sub;
          OLD_CORE_FLAG =
            ((highlighted_text \<noteq> None
                \<and> ''#core'' \<in> set (extract_hashtags w (sub_highlighted_text sub)))
             \<or> (explanation \<noteq> None
                \<and> ''#core'' \<in> set (extract_hashtags w (sub_explanation sub))));
          sub = (case highlighted_text of None \<Rightarrow> sub | Some t \<Rightarrow> sub\<lparr>sub_highlighted_text := t\<rparr>);
          sub = (case explanation of None \<Rightarrow> sub | Some t \<Rightarrow> sub\<lparr>sub_explanation := t\<rparr>);
          sub = (case source_url of None \<Rightarrow> sub | Some u \<Rightarrow> sub\<lparr>sub_source_url := u\<rparr>);
          tags = add_to_index w sub;
          (tags, UPDATE_FLAG) =
            (if OLD_CORE_FLAG \<and> ''#core'' \<notin> set tags then ([], True) else (tags, False));
          (tags, UPDATE_FLAG) =
            (if ''#core'' \<in> set tags then (without_core tags, True) else (tags, UPDATE_FLAG))
      in added @
         (if UPDATE_FLAG
          then concat
                 (map (\<lambda>c.
                         (if standardize_url w (sub_source_url sub) \<noteq> standardize_url w old_source_url
                          then [\<lparr>cu_community = c, cu_url = standardize_url w old_source_url,
                                 cu_hashtags = [], cu_submission = sub_id sub\<rparr>]
                          else [])
                         @ [\<lparr>cu_community = c, cu_url = standardize_url w (sub_source_url sub),
                              cu_hashtags = tags, cu_submission = sub_id sub\<rparr>])
                      (concat (map snd (sub_communities sub))))
          else []))"

section \<open>A small installation, for evaluating the model\<close>

text \<open>
  One user in one community. The submissions index answers every query with A (0.9) and
  B (0.5), the webpages index with B (0.7) and C (0.3); the reranking service answers with
  the reverse of the list it is given.
\<close>

definition hit_A :: hit where
  "hit_A = \<lparr>hit_id = ''a1'', hit_kind = Submission, hit_url = ''http://a.org'',
            hit_title = ''A'', hit_snippet = ''on a'', hit_score = 9 / 10\<rparr>"

definition hit_B :: hit where
  "hit_B = \<lparr>hit_id = ''b1'', hit_kind = Submission, hit_url = ''http://b.org'',
            hit_title = ''B'', hit_snippet = ''on b'', hit_score = 5 / 10\<rparr>"

definition hit_B_web :: hit where
  "hit_B_web = \<lparr>hit_id = ''b2'', hit_kind = Webpage, hit_url = ''http://b.org'',
                hit_title = ''B'', hit_snippet = ''page b'', hit_score = 7 / 10\<rparr>"

definition hit_C_web :: hit where
  "hit_C_web = \<lparr>hit_id = ''c2'', hit_kind = Webpage, hit_url = ''http://c.org'',
                hit_title = ''C'', hit_snippet = ''page c'', hit_score = 3 / 10\<rparr>"

definition home :: string where
  "home = ''0123456789abcdef01234567''"

definition example_world :: world where
  "example_world =
     \<lparr>standardize_url = (\<lambda>u. u),
      display_hashtags = (\<lambda>p. []),
      build_redirect_url = (\<lambda>u h m. u),
      noun_phrases = (\<lambda>t. []),
      list_set = remdups,
      extract_hashtags = (\<lambda>t. [v \<leftarrow> py_split t. take 1 v = ''#'']),
      add_to_index = (\<lambda>d. remdups ([v \<leftarrow> py_split (sub_highlighted_text d). take 1 v = ''#'']
                                   @ [v \<leftarrow> py_split (sub_explanation d). take 1 v = ''#''])),
      float_add = (\<lambda>x y. x + y),
      get_submissions = (\<lambda>u i. Inr (0, [])),
      get_community = (\<lambda>c i. Inr (0, [])),
      submissions_search = (\<lambda>q cs. Inr [hit_A, hit_B]),
      webpages_search = (\<lambda>q. Inr [hit_B_web, hit_C_web]),
      core_find_one = (\<lambda>c. Inr None),
      rerank_post = (\<lambda>ps q. Response 200 (JsonPages (rev ps))),
      cache_connect = None,
      cache_read = None,
      cache_write = None,
      log_search = Inr ''s1'',
      find_prior_search = (\<lambda>i. Inr None),
      community_info = Inr (map_of [(home, ''Home'')])\<rparr>"

definition example_user :: user where
  "example_user = \<lparr>user_id = ''u1'', user_communities = [home]\<rparr>"

definition example_request :: request where
  "example_request =
     \<lparr>remote_addr = ''10.0.0.1'',
      args = map_of [(''query'', ''fusion''), (''community'', ''all'')]\<rparr>"

definition initial_state :: pstate where
  "initial_state = \<lparr>neural_api = Some ''http://neural/'', cache_store = (\<lambda>k. None)\<rparr>"

section \<open>Predicates on computations\<close>

text \<open>
  Three ways of speaking about a computation: an invariant of the state together with a
  property of every external call made; the fact that a call which raised ends the
  computation with an exception; and the fact that result and cache do not depend on
  anything in the state but the cache.
\<close>

definition io_inv :: "(pstate \<Rightarrow> bool) \<Rightarrow> (event \<Rightarrow> bool) \<Rightarrow> 'a io \<Rightarrow> bool" where
  "io_inv I P m = (\<forall>s. I s \<longrightarrow> I (state_after (m s)) \<and> list_all P (calls (m s)))"

definition io_strict :: "(event \<Rightarrow> bool) \<Rightarrow> 'a io \<Rightarrow> bool" where
  "io_strict R m = (\<forall>s. list_ex R (calls (m s)) \<longrightarrow> isl (outcome (m s)))"

definition io_same :: "'a io \<Rightarrow> bool" where
  "io_same m =
     (\<forall>s s'. cache_store s = cache_store s' \<longrightarrow>
        outcome (m s) = outcome (m s')
        \<and> cache_store (state_after (m s)) = cache_store (state_after (m s')))"

fun is_webpages_search :: "event \<Rightarrow> bool" where
  "is_webpages_search (WebpagesSearch q) = True"
| "is_webpages_search _ = False"

fun is_rerank_post :: "event \<Rightarrow> bool" where
  "is_rerank_post (RerankPost ps q) = True"
| "is_rerank_post _ = False"

fun gateway_raised :: "world \<Rightarrow> event \<Rightarrow> bool" where
  \<comment> \<open>the event is a query of one of the two gateways and the world answers it with an exception\<close>
  "gateway_raised w (SubmissionsSearch q cs) = isl (submissions_search w q cs)"
| "gateway_raised w (WebpagesSearch q) = isl (webpages_search w q)"
| "gateway_raised w (GetSubmissions u i) = isl (get_submissions w u i)"
| "gateway_raised w (GetCommunity c i) = isl (get_community w c i)"
| "gateway_raised w _ = False"

definition io_after :: "(event \<Rightarrow> bool) \<Rightarrow> (pstate \<Rightarrow> bool) \<Rightarrow> 'a io \<Rightarrow> bool" where
  "io_after R F m = (\<forall>s. list_ex R (calls (m s)) \<longrightarrow> F (state_after (m s)))"

definition rerank_raised :: "rerank_outcome \<Rightarrow> bool" where
  \<comment> \<open>the outcomes that reach the \<^verbatim>\<open>except\<close> branch of lines 1131-1135\<close>
  "rerank_raised r =
     (case r of
        PostRaised \<Rightarrow> True
      | Response status_code body \<Rightarrow>
          status_code = 200 \<and> (case body of JsonPages pages \<Rightarrow> False | _ \<Rightarrow> True))"

fun rerank_failed :: "world \<Rightarrow> event \<Rightarrow> bool" where
  "rerank_failed w (RerankPost ps q) = rerank_raised (rerank_post w ps q)"
| "rerank_failed w _ = False"

definition score_sorted :: "item list \<Rightarrow> bool" where
  "score_sorted pages = sorted_wrt (\<lambda>p q. score q \<le> score p) pages"

fun inserts_sorted :: "event \<Rightarrow> bool" where
  "inserts_sorted (CacheInsert u session pages index) = score_sorted pages"
| "inserts_sorted _ = True"

definition fused :: "world \<Rightarrow> item list \<Rightarrow> bool" where
  \<comment> \<open>no two items with the same normalized URL, scores descending\<close>
  "fused w pages =
     (distinct (map (\<lambda>p. standardize_url w (canonical_url p)) pages)
      \<and> score_sorted pages)"

fun inserts_fused :: "world \<Rightarrow> event \<Rightarrow> bool" where
  "inserts_fused w (CacheInsert u session pages index) = fused w pages"
| "inserts_fused w _ = True"

definition io_post :: "('a \<Rightarrow> bool) \<Rightarrow> 'a io \<Rightarrow> bool" where
  "io_post Q m = (\<forall>s x. outcome (m s) = Inr x \<longrightarrow> Q x)"

definition page_ids :: "(exn + response) \<Rightarrow> string list option" where
  \<comment> \<open>the source ids of the page in a successful response, in order\<close>
  "page_ids r =
     (case r of
        Inr (Success ret) \<Rightarrow> Some (map source_id (ret_search_results_page ret))
      | _ \<Rightarrow> None)"

definition reranked_ids :: "rerank_outcome \<Rightarrow> string list option" where
  \<comment> \<open>the source ids of the list a successful rerank call answers, in order\<close>
  "reranked_ids r =
     (case r of
        Response status_code (JsonPages pages) \<Rightarrow>
          if status_code = 200 then Some (map source_id pages) else None
      | _ \<Rightarrow> None)"

fun rerank_answers :: "world \<Rightarrow> event list \<Rightarrow> string list option list" where
  \<comment> \<open>what the reranking service answered to the rerank calls among the events\<close>
  "rerank_answers w [] = []"
| "rerank_answers w (RerankPost ps q # evs) = reranked_ids (rerank_post w ps q) # rerank_answers w evs"
| "rerank_answers w (ev # evs) = rerank_answers w evs"

definition example_world_web_down :: world where
  \<comment> \<open>the webpages gateway raises on every query\<close>
  "example_world_web_down = example_world\<lparr>webpages_search := (\<lambda>q. Inl GatewayError)\<rparr>"

definition example_world_cache_down :: world where
  \<comment> \<open>\<^verbatim>\<open>Cache()\<close> raises\<close>
  "example_world_cache_down = example_world\<lparr>cache_connect := Some CacheError\<rparr>"

definition example_world_cache_readonly :: world where
  \<comment> \<open>\<^verbatim>\<open>cache.insert\<close> raises\<close>
  "example_world_cache_readonly = example_world\<lparr>cache_write := Some CacheError\<rparr>"

definition example_world_500 :: world where
  \<comment> \<open>the reranking service answers status 500\<close>
  "example_world_500 = example_world\<lparr>rerank_post := (\<lambda>ps q. Response 500 NotJson)\<rparr>"

definition example_world_500_next :: world where
  \<comment> \<open>the same, for a later search, which is logged under another id\<close>
  "example_world_500_next = example_world_500\<lparr>log_search := Inr ''s2''\<rparr>"

definition example_world_timeout :: world where
  \<comment> \<open>the rerank call raises\<close>
  "example_world_timeout = example_world\<lparr>rerank_post := (\<lambda>ps q. PostRaised)\<rparr>"

definition example_world_next :: world where
  \<comment> \<open>the reranking service is back, for a later search, which is logged under another id\<close>
  "example_world_next = example_world\<lparr>log_search := Inr ''s2''\<rparr>"

fun rerank_outcomes :: "world \<Rightarrow> event list \<Rightarrow> rerank_outcome list" where
  \<comment> \<open>what the reranking service did at the rerank calls among the events\<close>
  "rerank_outcomes w [] = []"
| "rerank_outcomes w (RerankPost ps q # evs) = rerank_post w ps q # rerank_outcomes w evs"
| "rerank_outcomes w (ev # evs) = rerank_outcomes w evs"

definition example_request_hashtag :: request where
  "example_request_hashtag =
     \<lparr>remote_addr = ''10.0.0.1'',
      args = map_of [(''query'', ''#ml fusion''), (''community'', ''all'')]\<rparr>"



definition example_pages :: "item list" where
  \<comment> \<open>A (0.9) and B (0.5) of one backend, B (0.7) and C (0.3) of the other\<close>
  "example_pages = combine_pages (create_page [hit_A, hit_B] []) (create_page [hit_B_web, hit_C_web] [])"

definition insert_and_return :: "world \<Rightarrow> bool \<Rightarrow> string \<Rightarrow> string \<Rightarrow> item list \<Rightarrow> nat \<Rightarrow> (nat \<times> item list) io" where
  \<comment> \<open>the last step of \<^verbatim>\<open>cache_search\<close> (lines 1150-1155), named for the proofs\<close>
  "insert_and_return w cache_up uid session pages index =
     io_bind (if cache_up then Cache_insert w uid session pages index else io_raise AttributeError)
       (\<lambda>page. io_return (length pages, page))"

section \<open>Definitions for stating the claims\<close>

definition boosted_hits :: "world \<Rightarrow> string \<Rightarrow> string \<Rightarrow> hit list" where
  \<comment> \<open>what the curated content of one community adds to the candidates, in the words of
      the specification: when the community has an entry for the URL, the hits of the
      re-query on the hashtags of the entry, each with 100 added to its score (in the
      arithmetic of the floats)\<close>
  "boosted_hits w url community_id =
     (case core_find_one w community_id of
        Inr (Some core_content) \<Rightarrow>
          (case core_content url of
             Some core_hashtags \<Rightarrow>
               (case submissions_search w (py_join '' '' (list_set w core_hashtags)) [community_id] of
                  Inr core_hits \<Rightarrow>
                    map (\<lambda>hit. hit\<lparr>hit_score := float_add w (hit_score hit) 100\<rparr>) core_hits
                | Inl e \<Rightarrow> [])
           | None \<Rightarrow> [])
      | _ \<Rightarrow> [])"

definition edited_submission ::
  "string \<Rightarrow> submission \<Rightarrow> string option \<Rightarrow> string option \<Rightarrow> string option \<Rightarrow> string option
     \<Rightarrow> submission" where
  \<comment> \<open>the submission as the PATCH handler hands it to \<^verbatim>\<open>add_to_index\<close> (line 497)\<close>
  "edited_submission uid sub community_id highlighted_text explanation source_url =
     (let sub = (case community_id of
                   None \<Rightarrow> sub
                 | Some c \<Rightarrow> sub\<lparr>sub_communities := add_community uid c (sub_communities sub)\<rparr>);
          sub = (case highlighted_text of None \<Rightarrow> sub | Some t \<Rightarrow> sub\<lparr>sub_highlighted_text := t\<rparr>);
          sub = (case explanation of None \<Rightarrow> sub | Some t \<Rightarrow> sub\<lparr>sub_explanation := t\<rparr>);
          sub = (case source_url of None \<Rightarrow> sub | Some u \<Rightarrow> sub\<lparr>sub_source_url := u\<rparr>)
      in sub)"

definition example_submission :: submission where
  "example_submission =
     \<lparr>sub_id = ''5f0000000000000000000001'', sub_user_id = ''u1'',
      sub_highlighted_text = ''a survey #core #ml'', sub_explanation = ''Survey'',
      sub_source_url = ''http://a.org'', sub_communities = [(''u1'', [home])]\<rparr>"

definition example_core :: "string \<Rightarrow> string list option" where
  \<comment> \<open>the core content of the community: one entry, for the page of A\<close>
  "example_core = map_of [(''http://a.org'', [''#ml''])]"

definition example_world_core :: world where
  \<comment> \<open>the community has a core entry, and the submissions index answers the hashtag query with B\<close>
  "example_world_core =
     example_world\<lparr>core_find_one := (\<lambda>c. Inr (Some example_core)),
                   submissions_search := (\<lambda>q cs. if q = ''#ml'' then Inr [hit_B] else Inr [hit_A])\<rparr>"

definition example_request_open :: request where
  \<comment> \<open>the extension opens on the page of A, nothing highlighted\<close>
  "example_request_open =
     \<lparr>remote_addr = ''10.0.0.1'',
      args = map_of [(''source'', ''extension_open''), (''url'', ''http://a.org''),
                     (''community'', ''all'')]\<rparr>"

definition example_request_highlight :: request where
  \<comment> \<open>the extension opens with a short highlighted text\<close>
  "example_request_highlight =
     \<lparr>remote_addr = ''10.0.0.1'',
      args = map_of [(''source'', ''extension_open''), (''url'', ''http://a.org''),
                     (''highlighted_text'', ''neural #search engines''),
                     (''community'', ''all'')]\<rparr>"

definition example_request_long :: request where
  \<comment> \<open>the extension opens with a highlighted text of ten words\<close>
  "example_request_long =
     \<lparr>remote_addr = ''10.0.0.1'',
      args = map_of [(''source'', ''extension_open''), (''url'', ''http://a.org''),
                     (''highlighted_text'', ''a b c d e f g h #i j''),
                     (''community'', ''all'')]\<rparr>"

definition example_world_phrases :: world where
  \<comment> \<open>the phrase extraction finds two phrases, one of them twice\<close>
  "example_world_phrases =
     example_world\<lparr>noun_phrases := (\<lambda>t. [''neural search'', ''engines'', ''neural search''])\<rparr>"

definition example_args :: "string \<Rightarrow> search_args" where
  \<comment> \<open>the arguments of \<^verbatim>\<open>cache_search\<close> for a page-open search of the example user\<close>
  "example_args q =
     \<lparr>sa_query = q, sa_search_id = ''s1'', sa_page = 0, sa_communities = [(home, ''Home'')],
      sa_user_id = ''u1'', sa_own_submissions = False, sa_toggle_webpage_results = True,
      sa_url_core_retrieve = Some ''http://a.org''\<rparr>"

definition fusion_candidates ::
  "world \<Rightarrow> string \<Rightarrow> (string \<times> string) list \<Rightarrow> bool \<Rightarrow> string option \<Rightarrow> item list" where
  \<comment> \<open>the merged candidates of a search, in the words of the specification: the items of the
      hits of the submissions gateway, of the boosted hits of the community cores when the
      curated content is asked for, and of the hits of the webpages gateway when it is
      switched on, concatenated in this order\<close>
  "fusion_candidates w query communities toggle_webpage_results url_core_retrieve =
     create_page
       ((case submissions_search w query (map fst communities) of
           Inr hits \<Rightarrow> hits
         | Inl e \<Rightarrow> [])
        @ (case url_core_retrieve of
             None \<Rightarrow> []
           | Some u \<Rightarrow> concat (map (boosted_hits w (standardize_url w u)) (map fst communities))))
       communities
     @ (if toggle_webpage_results
        then create_page (case webpages_search w query of Inr hits \<Rightarrow> hits | Inl e \<Rightarrow> [])
               communities
        else [])"

definition fuse :: "world \<Rightarrow> string \<Rightarrow> item list \<Rightarrow> item list" where
  \<comment> \<open>sorted by descending score, deduplicated and hydrated, in this order\<close>
  "fuse w session candidates =
     hydrate_with_hashtags w
       (hydrate_with_hash_url w
          (deduplicate (standardize_url w) (sort_key (\<lambda>x. - score x) candidates))
          session ''search'')"

fun inserts :: "(item list \<Rightarrow> bool) \<Rightarrow> event \<Rightarrow> bool" where
  "inserts Q (CacheInsert u session pages index) = Q pages"
| "inserts Q _ = True"

definition item_core :: "item \<Rightarrow> string \<times> string \<times> real" where
  \<comment> \<open>what hydration leaves as it is: source, URL and score\<close>
  "item_core p = (source_id p, canonical_url p, score p)"

fun is_core_find_one :: "event \<Rightarrow> bool" where
  "is_core_find_one (CoreFindOne c) = True"
| "is_core_find_one _ = False"

definition response_query :: "(exn + response) \<Rightarrow> string option" where
  \<comment> \<open>the query that a successful response reports\<close>
  "response_query r = (case r of Inr (Success ret) \<Rightarrow> Some (ret_query ret) | _ \<Rightarrow> None)"

definition example_request_fragment :: request where
  \<comment> \<open>the extension opens on a URL with a fragment, nothing typed, nothing highlighted\<close>
  "example_request_fragment =
     \<lparr>remote_addr = ''10.0.0.1'',
      args = map_of [(''source'', ''extension_open''), (''url'', ''http://a.org/#top''),
                     (''community'', ''all'')]\<rparr>"

definition prepared_query :: "(exn + response + search_args) \<Rightarrow> string option" where
  \<comment> \<open>the query that \<^verbatim>\<open>search\<close> hands to \<^verbatim>\<open>cache_search\<close>\<close>
  "prepared_query r = (case r of Inr (Inr a) \<Rightarrow> Some (sa_query a) | _ \<Rightarrow> None)"

definition example_request_overlong :: request where
  \<comment> \<open>the extension opens with a highlighted text of 1001 characters and two words\<close>
  "example_request_overlong =
     \<lparr>remote_addr = ''10.0.0.1'',
      args = map_of [(''source'', ''extension_open''), (''url'', ''http://a.org''),
                     (''highlighted_text'', CHR ''x'' # replicate 999 CHR '' '' @ ''y''),
                     (''community'', ''all'')]\<rparr>"

definition boost :: "world \<Rightarrow> hit \<Rightarrow> hit" where
  \<comment> \<open>\<^verbatim>\<open>hit["_score"] += 100\<close>\<close>
  "boost w hit = hit\<lparr>hit_score := float_add w (hit_score hit) 100\<rparr>"

(*PROPERTIES*)
section \<open>Words and joins\<close>

lemma split_acc_nospace:
  "list_all (\<lambda>c. \<not> py_isspace c) v \<Longrightarrow> split_acc cur (v @ s) = split_acc (cur @ v) s"
  by (induction v arbitrary: cur) auto

lemma split_acc_words:
  "list_all (\<lambda>c. \<not> py_isspace c) cur \<Longrightarrow> v \<in> set (split_acc cur s) \<Longrightarrow> word v"
proof (induction s arbitrary: cur)
  case Nil
  then show ?case by (simp add: word_def split: if_splits)
next
  case (Cons c cs)
  show ?case
  proof (cases "py_isspace c")
    case True
    have fresh: "v \<in> set (split_acc [] cs) \<Longrightarrow> word v"
      by (rule Cons.IH[of "[]"]) simp_all
    from True Cons.prems fresh show ?thesis
      by (cases "cur = []") (auto simp: word_def)
  next
    case False
    with Cons.prems have "v \<in> set (split_acc (cur @ [c]) cs)" by simp
    moreover from False Cons.prems(1) have "list_all (\<lambda>c. \<not> py_isspace c) (cur @ [c])" by simp
    ultimately show ?thesis by (rule Cons.IH[rotated])
  qed
qed

lemma py_split_words: "v \<in> set (py_split s) \<Longrightarrow> word v"
  unfolding py_split_def by (rule split_acc_words[of "[]"]) simp_all

lemma space_isspace: "py_isspace CHR '' ''"
  by (simp add: py_isspace_def)

lemma split_acc_word_space: "word v \<Longrightarrow> split_acc [] (v @ CHR '' '' # s) = v # split_acc [] s"
  using split_acc_nospace[of v "[]" "CHR '' '' # s"] by (simp add: word_def space_isspace)

lemma split_acc_word_end: "word v \<Longrightarrow> split_acc [] v = [v]"
  using split_acc_nospace[of v "[]" "[]"] by (simp add: word_def)

lemma py_split_join: "\<forall>v \<in> set vs. word v \<Longrightarrow> py_split (py_join '' '' vs) = vs"
proof (induction vs)
  case Nil
  then show ?case by (simp add: py_split_def)
next
  case (Cons v vs)
  show ?case
  proof (cases vs)
    case Nil
    with Cons.prems show ?thesis by (simp add: py_split_def split_acc_word_end)
  next
    case (Cons u us)
    with Cons.prems Cons.IH show ?thesis
      by (simp add: py_split_def split_acc_word_space del: split_acc.simps)
  qed
qed

lemma default_split:
  "py_split default_search_text =
     [''transformer'', ''natural'', ''language'', ''processing'', ''illinois'', ''machine'',
      ''learning'', ''startup'', ''neural'', ''network'', ''hack'', ''hacker'', ''technology'',
      ''future'', ''explanation'', ''application'', ''building'', ''coding'', ''search'',
      ''engine'', ''computer'', ''vision'', ''recurrent'', ''classification'', ''generation'',
      ''chatgpt'', ''gpt3'', ''data'']"
  by code_simp

section \<open>Explore terms of the recommender\<close>

text \<open>
  Claim C9. In explore mode the derived term list is \<open>explore_split_text\<close>. With at most ten
  terms the query is left as it is and its terms are all of them; with more than ten terms
  the query has exactly ten terms and each is drawn from the derived list (as a multiset,
  so no term is used more often than it occurs); without any source text the terms are
  those of the fixed default text. The shuffle is any permutation of its argument.
\<close>

theorem explore_terms:
  assumes perm: "mset (shuffle (explore_split_text np ls ft)) = mset (explore_split_text np ls ft)"
  shows "(length (explore_split_text np ls ft) \<le> 10 \<longrightarrow>
            explore_search_text np ls shuffle ft = explore_text np ls ft \<and>
            py_split (explore_search_text np ls shuffle ft) = explore_split_text np ls ft)
       \<and> (length (explore_split_text np ls ft) > 10 \<longrightarrow>
            length (py_split (explore_search_text np ls shuffle ft)) = 10 \<and>
            mset (py_split (explore_search_text np ls shuffle ft))
              \<subseteq># mset (explore_split_text np ls ft))
       \<and> (ft = [] \<longrightarrow> explore_text np ls ft = default_search_text \<and>
            explore_split_text np ls ft = py_split default_search_text)"
proof (intro conjI impI)
  let ?T = "explore_split_text np ls ft"
  let ?sel = "take 10 (shuffle ?T)"
  assume big: "10 < length ?T"
  then have q: "explore_search_text np ls shuffle ft = py_join '' '' ?sel"
    by (simp add: explore_search_text_def explore_split_text_def Let_def)
  have "set (shuffle ?T) = set ?T" using perm by (rule mset_eq_setD)
  then have "\<forall>v \<in> set ?sel. word v"
    using py_split_words[of _ "explore_text np ls ft"] in_set_takeD[of _ 10 "shuffle ?T"]
    by (auto simp: explore_split_text_def)
  then have sp: "py_split (py_join '' '' ?sel) = ?sel" by (rule py_split_join)
  have len: "length (shuffle ?T) = length ?T" using perm by (rule mset_eq_length)
  show "length (py_split (explore_search_text np ls shuffle ft)) = 10"
    using big len by (simp add: q sp)
  have "mset ?sel \<subseteq># mset (shuffle ?T)"
    by (metis append_take_drop_id mset_append mset_subset_eq_add_left)
  then show "mset (py_split (explore_search_text np ls shuffle ft)) \<subseteq># mset ?T"
    by (simp add: q sp perm)
qed (simp_all add: explore_search_text_def explore_split_text_def explore_text_def Let_def)

theorem explore_terms_witness:
  "explore_search_text (\<lambda>_. []) remdups rev [] =
     ''data gpt3 chatgpt generation classification recurrent vision computer engine search''
   \<and> length (py_split (explore_search_text (\<lambda>_. []) remdups rev [])) = 10
   \<and> explore_search_text (\<lambda>_. [''deep learning'', ''ml'', ''deep learning'']) remdups rev
        '' deep learning ml'' = '' deep learning''"
proof -
  have a: "explore_split_text (\<lambda>_. []) remdups [] = py_split default_search_text"
    by (simp add: explore_split_text_def explore_text_def)
  have b: "explore_text (\<lambda>_. [''deep learning'', ''ml'', ''deep learning'']) remdups
        '' deep learning ml'' = '' deep learning''"
    by (simp add: explore_text_def)
  have c: "py_split '' deep learning'' = [''deep'', ''learning'']"
    by code_simp
  have d: "explore_search_text (\<lambda>_. []) remdups rev [] =
     ''data gpt3 chatgpt generation classification recurrent vision computer engine search''"
    by (simp add: explore_search_text_def explore_text_def default_split)
  show ?thesis
    using explore_terms [of rev "\<lambda>_. []" remdups "[]"]
        explore_terms [of rev "\<lambda>_. [''deep learning'', ''ml'', ''deep learning'']" remdups
                          "'' deep learning ml''"]
    by (simp add: a b c d default_split explore_split_text_def)
qed

section \<open>Reasoning about computations\<close>

lemma io_return_proj [simp]:
  "outcome (io_return x s) = Inr x" "state_after (io_return x s) = s" "calls (io_return x s) = []"
  by (simp_all add: io_return_def outcome_def state_after_def calls_def)

lemma io_raise_proj [simp]:
  "outcome (io_raise e s) = Inl e" "state_after (io_raise e s) = s" "calls (io_raise e s) = []"
  by (simp_all add: io_raise_def outcome_def state_after_def calls_def)

lemma io_call_proj [simp]:
  "outcome (io_call ev a s) = a" "state_after (io_call ev a s) = s" "calls (io_call ev a s) = [ev]"
  by (simp_all add: io_call_def outcome_def state_after_def calls_def)

lemma io_bind_Inl:
  "outcome (m s) = Inl e \<Longrightarrow>
     outcome (io_bind m f s) = Inl e \<and> state_after (io_bind m f s) = state_after (m s)
     \<and> calls (io_bind m f s) = calls (m s)"
  by (cases "m s") (auto simp: io_bind_def outcome_def state_after_def calls_def)

lemma io_bind_Inr:
  "outcome (m s) = Inr x \<Longrightarrow>
     outcome (io_bind m f s) = outcome (f x (state_after (m s)))
     \<and> state_after (io_bind m f s) = state_after (f x (state_after (m s)))
     \<and> calls (io_bind m f s) = calls (m s) @ calls (f x (state_after (m s)))"
  by (cases "m s") 
     (auto simp: io_bind_def outcome_def state_after_def calls_def split: prod.splits)

lemma io_catch_Inr:
  "outcome (m s) = Inr x \<Longrightarrow>
     outcome (io_catch m h s) = Inr x \<and> state_after (io_catch m h s) = state_after (m s)
     \<and> calls (io_catch m h s) = calls (m s)"
  by (cases "m s") (auto simp: io_catch_def outcome_def state_after_def calls_def)

lemma io_catch_Inl:
  "outcome (m s) = Inl e \<Longrightarrow>
     outcome (io_catch m h s) = outcome (h e (state_after (m s)))
     \<and> state_after (io_catch m h s) = state_after (h e (state_after (m s)))
     \<and> calls (io_catch m h s) = calls (m s) @ calls (h e (state_after (m s)))"
  by (cases "m s") 
     (auto simp: io_catch_def outcome_def state_after_def calls_def split: prod.splits)

subsection \<open>Rules for \<open>io_inv\<close>\<close>

lemma io_inv_return: "io_inv I P (io_return x)"
  by (simp add: io_inv_def)

lemma io_inv_raise: "io_inv I P (io_raise e)"
  by (simp add: io_inv_def)

lemma io_inv_call: "P ev \<Longrightarrow> io_inv I P (io_call ev a)"
  by (simp add: io_inv_def)

lemma io_inv_bind: 
  assumes "io_inv I P m" and "\<And>x. io_inv I P (f x)"
  shows "io_inv I P (io_bind m f)"
  unfolding io_inv_def
proof (intro allI impI)
  fix s assume I: "I s"
  show "I (state_after (io_bind m f s)) \<and> list_all P (calls (io_bind m f s))"
  proof (cases "outcome (m s)")
    case (Inl e)
    from io_bind_Inl[where m=m and s=s and f=f, OF Inl] assms(1) I show ?thesis by (simp add: io_inv_def)
  next
    case (Inr x)
    from assms(1) I have 1: "I (state_after (m s))" "list_all P (calls (m s))" 
      by (simp_all add: io_inv_def)
    from assms(2)[of x] 1 have "I (state_after (f x (state_after (m s))))" 
       "list_all P (calls (f x (state_after (m s))))" by (simp_all add: io_inv_def)
    with io_bind_Inr[where m=m and s=s and f=f, OF Inr] 1 show ?thesis by simp
  qed
qed

lemma io_inv_catch: 
  assumes "io_inv I P m" and "\<And>e. io_inv I P (h e)"
  shows "io_inv I P (io_catch m h)"
  unfolding io_inv_def
proof (intro allI impI)
  fix s assume I: "I s"
  from assms(1) I have 1: "I (state_after (m s))" "list_all P (calls (m s))" 
      by (simp_all add: io_inv_def)
  show "I (state_after (io_catch m h s)) \<and> list_all P (calls (io_catch m h s))"
  proof (cases "outcome (m s)")
    case (Inr x)
    from io_catch_Inr[where m=m and s=s and h=h, OF Inr] 1 show ?thesis by simp
  next
    case (Inl e)
    from assms(2)[of e] 1 have "I (state_after (h e (state_after (m s))))" 
       "list_all P (calls (h e (state_after (m s))))" by (simp_all add: io_inv_def)
    with io_catch_Inl[where m=m and s=s and h=h, OF Inl] 1 show ?thesis by simp
  qed
qed

lemma io_inv_Cache_init: "P CacheNew \<Longrightarrow> io_inv I P (Cache_init w)"
  by (simp add: Cache_init_def io_inv_call)

lemma io_inv_Cache_search: 
  "P (CacheSearch u sid i) \<Longrightarrow> io_inv I P (Cache_search w u sid i)"
  by (simp add: io_inv_def Cache_search_def state_after_def calls_def split: option.splits)

lemma io_inv_Cache_insert: 
  "P (CacheInsert u sid ps i) \<Longrightarrow> (\<And>s c. I s \<Longrightarrow> I (s\<lparr>cache_store := c\<rparr>)) \<Longrightarrow> 
   io_inv I P (Cache_insert w u sid ps i)"
  by (simp add: io_inv_def Cache_insert_def state_after_def calls_def split: option.splits)

lemma io_inv_core_retrieve:
  "(\<And>c. P (CoreFindOne c)) \<Longrightarrow> (\<And>q cs. P (SubmissionsSearch q cs)) \<Longrightarrow> 
    io_inv I P (core_retrieve w url cs hits)"
proof (induction cs arbitrary: hits)
  case Nil
  then show ?case by (simp add: io_inv_return)
next
  case (Cons c cs)
  show ?case
    by (auto intro!: io_inv_bind io_inv_call Cons split: option.splits)
qed

lemma io_inv_rerank_any:
  "(\<And>ps q. P (RerankPost ps q)) \<Longrightarrow> (\<And>s. I s \<Longrightarrow> I (s\<lparr>neural_api := None\<rparr>)) \<Longrightarrow> 
    io_inv I P (neural_rerank w ps q)"
  by (auto simp: io_inv_def neural_rerank_def state_after_def calls_def 
        split: option.splits rerank_outcome.splits payload.splits)

lemma io_inv_rerank_off:
  "io_inv (\<lambda>s. neural_api s = None) P (neural_rerank w ps q)"
  by (auto simp: io_inv_def neural_rerank_def state_after_def calls_def)

lemmas io_inv_intros = io_inv_bind io_inv_catch io_inv_return io_inv_raise io_inv_call
  io_inv_Cache_init io_inv_Cache_search io_inv_Cache_insert io_inv_core_retrieve

lemma cache_search_no_web:
  "io_inv (\<lambda>s. True) (\<lambda>ev. \<not> is_webpages_search ev) 
     (cache_search w q sid i cs u own False uc)"
  unfolding cache_search_def Let_def
  by (auto intro!: io_inv_intros io_inv_rerank_any split: list.splits option.splits)

lemma cache_search_no_rerank:
  "io_inv (\<lambda>s. neural_api s = None) (\<lambda>ev. \<not> is_rerank_post ev) 
     (cache_search w q sid i cs u own tg uc)"
  unfolding cache_search_def Let_def
  by (auto intro!: io_inv_intros io_inv_rerank_off split: list.splits option.splits)

subsection \<open>Rules for \<open>io_post\<close>\<close>

lemma io_post_return: "Q x \<Longrightarrow> io_post Q (io_return x)"
  by (simp add: io_post_def)

lemma io_post_raise: "io_post Q (io_raise e)"
  by (simp add: io_post_def)

lemma io_post_bind:
  assumes "io_post Q1 m" and "\<And>x. Q1 x \<Longrightarrow> io_post Q (f x)"
  shows "io_post Q (io_bind m f)"
  unfolding io_post_def
proof (intro allI impI)
  fix s y assume out: "outcome (io_bind m f s) = Inr y"
  show "Q y"
  proof (cases "outcome (m s)")
    case (Inl e)
    from io_bind_Inl[where m=m and s=s and f=f, OF Inl] out show ?thesis by simp
  next
    case (Inr x)
    with assms(1) have "Q1 x" by (simp add: io_post_def)
    then have "io_post Q (f x)" by (rule assms(2))
    with io_bind_Inr[where m=m and s=s and f=f, OF Inr] out show ?thesis
      by (simp add: io_post_def)
  qed
qed

lemma io_post_True: "io_post (\<lambda>x. True) m"
  by (simp add: io_post_def)

lemma io_inv_bind_post:
  assumes "io_inv I P m" and "io_post Q m" and "\<And>x. Q x \<Longrightarrow> io_inv I P (f x)"
  shows "io_inv I P (io_bind m f)"
  unfolding io_inv_def
proof (intro allI impI)
  fix s assume I: "I s"
  from assms(1) I have 1: "I (state_after (m s))" "list_all P (calls (m s))" 
    by (simp_all add: io_inv_def)
  show "I (state_after (io_bind m f s)) \<and> list_all P (calls (io_bind m f s))"
  proof (cases "outcome (m s)")
    case (Inl e)
    from io_bind_Inl[where m=m and s=s and f=f, OF Inl] 1 show ?thesis by simp
  next
    case (Inr x)
    with assms(2) have "Q x" by (simp add: io_post_def)
    from assms(3)[OF this] 1 have "I (state_after (f x (state_after (m s))))" 
       "list_all P (calls (f x (state_after (m s))))" by (simp_all add: io_inv_def)
    with io_bind_Inr[where m=m and s=s and f=f, OF Inr] 1 show ?thesis by simp
  qed
qed

subsection \<open>Rules for \<open>io_strict\<close>\<close>

lemma io_strict_quiet: "io_inv (\<lambda>s. True) (\<lambda>ev. \<not> R ev) m \<Longrightarrow> io_strict R m"
  by (auto simp: io_inv_def io_strict_def list_all_iff list_ex_iff)

lemma io_strict_return: "io_strict R (io_return x)"
  by (simp add: io_strict_def)

lemma io_strict_raise: "io_strict R (io_raise e)"
  by (simp add: io_strict_def)

lemma io_strict_call: "(R ev \<Longrightarrow> isl a) \<Longrightarrow> io_strict R (io_call ev a)"
  by (auto simp add: io_strict_def)

lemma io_strict_bind:
  assumes "io_strict R m" and "\<And>x. io_strict R (f x)"
  shows "io_strict R (io_bind m f)"
  unfolding io_strict_def
proof (intro allI impI)
  fix s assume ex: "list_ex R (calls (io_bind m f s))"
  show "isl (outcome (io_bind m f s))"
  proof (cases "outcome (m s)")
    case (Inl e)
    from io_bind_Inl[where m=m and s=s and f=f, OF Inl] show ?thesis by simp
  next
    case (Inr x)
    note b = io_bind_Inr[where m=m and s=s and f=f, OF Inr]
    from ex b have "list_ex R (calls (m s)) \<or> list_ex R (calls (f x (state_after (m s))))"
      by simp
    then show ?thesis
    proof
      assume "list_ex R (calls (m s))"
      with assms(1) have "isl (outcome (m s))" by (simp add: io_strict_def)
      with Inr show ?thesis by simp
    next
      assume "list_ex R (calls (f x (state_after (m s))))"
      with assms(2)[of x] have "isl (outcome (f x (state_after (m s))))" 
        by (simp add: io_strict_def)
      with b show ?thesis by simp
    qed
  qed
qed

lemma io_strict_core_retrieve: "io_strict (gateway_raised w) (core_retrieve w url cs hits)"
proof (induction cs arbitrary: hits)
  case Nil
  then show ?case by (simp add: io_strict_return)
next
  case (Cons c cs)
  show ?case
    by (auto intro!: io_strict_bind io_strict_call Cons split: option.splits)
qed

lemma cache_open_quiet:
  "\<not> R CacheNew \<Longrightarrow> 
   io_strict R (io_catch (io_bind (Cache_init w) (\<lambda>_. io_return True)) (\<lambda>e. io_return False))"
  by (rule io_strict_quiet) (auto intro!: io_inv_intros)

lemma io_strict_cache_search: 
  "io_strict (gateway_raised w) (cache_search w q sid i cs u own tg uc)"
  unfolding cache_search_def Let_def
  by (auto intro!: cache_open_quiet io_strict_bind io_strict_return io_strict_raise io_strict_call 
        io_strict_core_retrieve
        io_strict_quiet[of _ "Cache_search _ _ _ _"] io_strict_quiet[of _ "Cache_insert _ _ _ _ _"]
        io_strict_quiet[of _ "neural_rerank _ _ _"] io_inv_intros io_inv_rerank_any
      split: list.splits option.splits)

lemma io_strict_search_session:
  "io_strict (gateway_raised w) (search_session w cu req src q own tg)"
  unfolding search_session_def
  by (auto intro!: io_strict_bind io_strict_return io_strict_raise io_strict_call 
      split: option.splits sum.splits)

lemma io_strict_search_prepare:
  "io_strict (gateway_raised w) (search_prepare w cu req)"
  unfolding search_prepare_def Let_def
  by (auto intro!: io_strict_bind io_strict_return io_strict_raise io_strict_call 
           io_strict_search_session
      split: option.splits sum.splits prod.splits)

lemma io_strict_search_try:
  "io_strict (gateway_raised w) (search_try w cu req)"
  unfolding search_try_def
  by (auto intro!: io_strict_bind io_strict_return io_strict_cache_search io_strict_search_prepare
      split: sum.splits)

subsection \<open>Rules for \<open>io_after\<close>\<close>

lemma io_after_quiet: "io_inv (\<lambda>s. True) (\<lambda>ev. \<not> R ev) m \<Longrightarrow> io_after R F m"
  by (auto simp: io_inv_def io_after_def list_all_iff list_ex_iff)

lemma io_after_return: "io_after R F (io_return x)"
  by (simp add: io_after_def)

lemma io_after_raise: "io_after R F (io_raise e)"
  by (simp add: io_after_def)

lemma io_after_call: "\<not> R ev \<Longrightarrow> io_after R F (io_call ev a)"
  by (simp add: io_after_def)

lemma io_after_bind:
  assumes "io_after R F m" and "\<And>x. io_after R F (f x)" 
      and "\<And>x. io_inv F (\<lambda>ev. True) (f x)"
  shows "io_after R F (io_bind m f)"
  unfolding io_after_def
proof (intro allI impI)
  fix s assume ex: "list_ex R (calls (io_bind m f s))"
  show "F (state_after (io_bind m f s))"
  proof (cases "outcome (m s)")
    case (Inl e)
    from io_bind_Inl[where m=m and s=s and f=f, OF Inl] ex assms(1) show ?thesis 
      by (simp add: io_after_def)
  next
    case (Inr x)
    note b = io_bind_Inr[where m=m and s=s and f=f, OF Inr]
    from ex b have "list_ex R (calls (m s)) \<or> list_ex R (calls (f x (state_after (m s))))"
      by simp
    then show ?thesis
    proof
      assume "list_ex R (calls (m s))"
      with assms(1) have "F (state_after (m s))" by (simp add: io_after_def)
      with assms(3)[of x] have "F (state_after (f x (state_after (m s))))" 
        by (simp add: io_inv_def)
      with b show ?thesis by simp
    next
      assume "list_ex R (calls (f x (state_after (m s))))"
      with assms(2)[of x] have "F (state_after (f x (state_after (m s))))" 
        by (simp add: io_after_def)
      with b show ?thesis by simp
    qed
  qed
qed

lemma io_after_catch_return:
  assumes "io_after R F m"
  shows "io_after R F (io_catch m (\<lambda>e. io_return x))"
  unfolding io_after_def
proof (intro allI impI)
  fix s assume ex: "list_ex R (calls (io_catch m (\<lambda>e. io_return x) s))"
  show "F (state_after (io_catch m (\<lambda>e. io_return x) s))"
  proof (cases "outcome (m s)")
    case (Inl e)
    from io_catch_Inl[where m=m and s=s and h="\<lambda>e. io_return x", OF Inl] ex assms show ?thesis 
      by (simp add: io_after_def)
  next
    case (Inr y)
    from io_catch_Inr[where m=m and s=s and h="\<lambda>e. io_return x", OF Inr] ex assms show ?thesis 
      by (simp add: io_after_def)
  qed
qed

lemma io_after_rerank:
  "io_after (rerank_failed w) (\<lambda>s. neural_api s = None) (neural_rerank w ps q)"
  by (auto simp: io_after_def neural_rerank_def state_after_def calls_def rerank_raised_def
        split: option.splits rerank_outcome.splits payload.splits)

lemma io_after_core_retrieve: 
  "io_after (rerank_failed w) F (core_retrieve w' url cs hits)"
  by (rule io_after_quiet) (auto intro!: io_inv_intros)

lemma io_inv_any_cache_search:
  "io_inv (\<lambda>s. neural_api s = None) (\<lambda>ev. True) (cache_search w q sid i cs u own tg uc)"
  unfolding cache_search_def Let_def
  by (auto intro!: io_inv_intros io_inv_rerank_off split: list.splits option.splits)

lemma io_after_cache_search:
  "io_after (rerank_failed w) (\<lambda>s. neural_api s = None) (cache_search w q sid i cs u own tg uc)"
  unfolding cache_search_def Let_def
  by (auto intro!: io_after_bind io_after_return io_after_raise io_after_call io_after_rerank
        io_after_core_retrieve io_after_catch_return
        io_after_quiet[of _ "Cache_search _ _ _ _"] io_after_quiet[of _ "Cache_insert _ _ _ _ _"]
        io_after_quiet[of _ "Cache_init _"]
        io_inv_intros io_inv_rerank_off
      split: list.splits option.splits)

subsection \<open>The endpoint\<close>

lemma io_inv_search_session:
  "(\<And>a b c. P (LogSearch a b c)) \<Longrightarrow> (\<And>a. P (FindPriorSearch a)) \<Longrightarrow>
   io_inv I P (search_session w cu req src q own tg)"
  unfolding search_session_def
  by (auto intro!: io_inv_intros split: option.splits sum.splits)

lemma io_inv_search_prepare:
  "(\<And>a b c. P (LogSearch a b c)) \<Longrightarrow> (\<And>a. P (FindPriorSearch a)) \<Longrightarrow> P GetCommunities \<Longrightarrow>
   io_inv I P (search_prepare w cu req)"
  unfolding search_prepare_def Let_def
  by (auto intro!: io_inv_intros io_inv_search_session split: option.splits sum.splits prod.splits)

lemma search_no_rerank:
  "io_inv (\<lambda>s. neural_api s = None) (\<lambda>ev. \<not> is_rerank_post ev) (search w cu req)"
  unfolding search_def search_try_def
  by (auto intro!: io_inv_intros io_inv_search_prepare cache_search_no_rerank split: sum.splits)

lemma search_any:
  "io_inv (\<lambda>s. neural_api s = None) (\<lambda>ev. True) (search w cu req)"
  unfolding search_def search_try_def
  by (auto intro!: io_inv_intros io_inv_search_prepare io_inv_any_cache_search split: sum.splits)

lemma search_after_failed_rerank:
  "io_after (rerank_failed w) (\<lambda>s. neural_api s = None) (search w cu req)"
  unfolding search_def search_try_def
  by (auto intro!: io_after_catch_return io_after_bind io_after_return io_after_cache_search
         io_after_quiet[of _ "search_prepare _ _ _"] io_inv_search_prepare
         io_inv_intros io_inv_any_cache_search
      split: sum.splits)

lemma serve_no_rerank:
  "neural_api s = None \<Longrightarrow> r \<in> set (serve later s) \<Longrightarrow> list_all (\<lambda>ev. \<not> is_rerank_post ev) (calls r)"
proof (induction later arbitrary: s)
  case Nil
  then show ?case by simp
next
  case (Cons a later)
  obtain w cu req where a: "a = (w, cu, req)" by (cases a) auto
  from search_no_rerank[of w cu req] Cons.prems(1)
  have 1: "neural_api (state_after (search w cu req s)) = None"
          "list_all (\<lambda>ev. \<not> is_rerank_post ev) (calls (search w cu req s))"
    by (simp_all add: io_inv_def)
  from Cons.prems(2) a have "r = search w cu req s \<or> r \<in> set (serve later (state_after (search w cu req s)))"
    by simp
  then show ?case
  proof
    assume "r = search w cu req s" with 1 show ?thesis by simp
  next
    assume "r \<in> set (serve later (state_after (search w cu req s)))"
    with 1(1) show ?thesis by (rule Cons.IH)
  qed
qed

subsection \<open>Sorted insertions\<close>

lemma score_sorted_sort: "score_sorted (sort_key (\<lambda>x. - score x) ps)"
proof -
  have "sorted (map (\<lambda>x. - score x) (sort_key (\<lambda>x. - score x) ps))" by (rule sorted_sort_key)
  then show ?thesis 
    by (simp add: score_sorted_def sorted_map sorted_wrt_iff_nth_less)
qed

subsection \<open>Deduplication\<close>

lemma deduplicate_beaten: "beaten std p ps \<Longrightarrow> deduplicate std (p # ps) = deduplicate std ps"
  by (simp add: beaten_def)

lemma deduplicate_kept:
  "\<not> beaten std p ps \<Longrightarrow> deduplicate std (p # ps) = p # deduplicate std (others std p ps)"
  by (auto simp: beaten_def others_def)

lemma deduplicate_cases [case_names Nil beaten kept]:
  assumes "P []"
    and "\<And>p ps. beaten std p ps \<Longrightarrow> P ps \<Longrightarrow> P (p # ps)"
    and "\<And>p ps. \<not> beaten std p ps \<Longrightarrow> P (others std p ps) \<Longrightarrow> P (p # ps)"
  shows "P ps"
proof (induction ps rule: length_induct)
  case (1 xs)
  show ?case
  proof (cases xs)
    case Nil
    with assms(1) show ?thesis by simp
  next
    case (Cons p ps)
    show ?thesis
    proof (cases "beaten std p ps")
      case True
      from 1 Cons have "P ps" by simp
      with True have "P (p # ps)" by (rule assms(2))
      with Cons show ?thesis by simp
    next
      case False
      have "length (others std p ps) \<le> length ps" by (simp add: others_def)
      with 1 Cons have "P (others std p ps)" by simp
      with False have "P (p # ps)" by (rule assms(3))
      with Cons show ?thesis by simp
    qed
  qed
qed

lemma others_subset: "set (others std p ps) \<subseteq> set ps"
  by (auto simp: others_def)

lemma others_key: "q \<in> set (others std p ps) \<Longrightarrow> std (canonical_url q) \<noteq> std (canonical_url p)"
  by (simp add: others_def)

lemma deduplicate_subset: "set (deduplicate std ps) \<subseteq> set ps"
proof (induction ps rule: deduplicate_cases[where std=std])
  case Nil
  show ?case by simp
next
  case (beaten p ps)
  then show ?case by (auto simp del: deduplicate.simps simp add: deduplicate_beaten)
next
  case (kept p ps)
  with others_subset[of std p ps] show ?case
    by (auto simp del: deduplicate.simps simp add: deduplicate_kept)
qed


lemma deduplicate_distinct: "distinct (map (\<lambda>p. std (canonical_url p)) (deduplicate std ps))"
proof (induction ps rule: deduplicate_cases[where std=std])
  case Nil
  show ?case by simp
next
  case (beaten p ps)
  then show ?case by (simp del: deduplicate.simps add: deduplicate_beaten)
next
  case (kept p ps)
  have "\<forall>q \<in> set (deduplicate std (others std p ps)).
          std (canonical_url q) \<noteq> std (canonical_url p)"
    using deduplicate_subset[of std "others std p ps"] others_key[of _ std p ps] by blast
  with kept show ?case
    by (auto simp del: deduplicate.simps simp add: deduplicate_kept)
qed



lemma deduplicate_keeps_best:
  "\<forall>q \<in> set ps. \<exists>p \<in> set (deduplicate std ps).
      std (canonical_url p) = std (canonical_url q) \<and> score q \<le> score p"
proof (induction ps rule: deduplicate_cases[where std=std])
  case Nil
  show ?case by simp
next
  case (beaten p ps)
  from beaten(1) obtain q' where q': "q' \<in> set ps" "std (canonical_url q') = std (canonical_url p)"
    "score p < score q'" unfolding beaten_def by blast
  from beaten(2) q'(1) obtain y where y: "y \<in> set (deduplicate std ps)"
    "std (canonical_url y) = std (canonical_url q')" "score q' \<le> score y" by blast
  from y q' have "std (canonical_url y) = std (canonical_url p)" "score p \<le> score y"
    by simp_all
  with y(1) have "\<exists>y \<in> set (deduplicate std ps).
      std (canonical_url y) = std (canonical_url p) \<and> score p \<le> score y" by blast
  with beaten show ?case by (simp del: deduplicate.simps add: deduplicate_beaten)
next
  case (kept p ps)
  show ?case
  proof
    fix q assume q: "q \<in> set (p # ps)"
    show "\<exists>y \<in> set (deduplicate std (p # ps)).
            std (canonical_url y) = std (canonical_url q) \<and> score q \<le> score y"
    proof (cases "std (canonical_url q) = std (canonical_url p)")
      case True
      from q have "q = p \<or> q \<in> set ps" by simp
      with True kept(1) have "score q \<le> score p" by (auto simp: beaten_def not_less)
      with True kept(1) show ?thesis by (simp del: deduplicate.simps add: deduplicate_kept)
    next
      case False
      with q have "q \<in> set (others std p ps)" by (auto simp: others_def)
      with kept(2) have "\<exists>y \<in> set (deduplicate std (others std p ps)).
          std (canonical_url y) = std (canonical_url q) \<and> score q \<le> score y" by blast
      with kept(1) show ?thesis by (simp del: deduplicate.simps add: deduplicate_kept)
    qed
  qed
qed

lemma deduplicate_sorted: "score_sorted ps \<longrightarrow> score_sorted (deduplicate std ps)"
proof (induction ps rule: deduplicate_cases[where std=std])
  case Nil
  show ?case by simp
next
  case (beaten p ps)
  then show ?case by (simp del: deduplicate.simps add: deduplicate_beaten score_sorted_def)
next
  case (kept p ps)
  show ?case
  proof
    assume srt: "score_sorted (p # ps)"
    then have tail: "score_sorted ps" and head: "\<forall>q \<in> set ps. score q \<le> score p"
      by (simp_all add: score_sorted_def)
    from tail have "score_sorted (others std p ps)"
      by (simp add: score_sorted_def others_def sorted_wrt_filter)
    with kept(2) have s: "score_sorted (deduplicate std (others std p ps))" by simp
    have "set (deduplicate std (others std p ps)) \<subseteq> set ps"
      using deduplicate_subset[of std "others std p ps"] others_subset[of std p ps] by blast
    with head have h: "\<forall>q \<in> set (deduplicate std (others std p ps)). score q \<le> score p" by blast
    from s h kept(1) show "score_sorted (deduplicate std (p # ps))"
      by (simp del: deduplicate.simps add: deduplicate_kept score_sorted_def)
  qed
qed

subsection \<open>Hydration keeps URLs and scores\<close>

lemma map_enumerate_field:
  "(\<And>i p. f (g i p) = f p) \<Longrightarrow> map f (map (\<lambda>(i, p). g i p) (enumerate n ps)) = map f ps"
  by (induction ps arbitrary: n) simp_all

lemma hydrate_hash_url_url:
  "map canonical_url (hydrate_with_hash_url w ps sid m) = map canonical_url ps"
  unfolding hydrate_with_hash_url_def by (rule map_enumerate_field) simp

lemma hydrate_hash_url_score:
  "map score (hydrate_with_hash_url w ps sid m) = map score ps"
  unfolding hydrate_with_hash_url_def by (rule map_enumerate_field) simp

lemma hydrate_hashtags_url:
  "map canonical_url (hydrate_with_hashtags w ps) = map canonical_url ps"
  by (simp add: hydrate_with_hashtags_def)

lemma hydrate_hashtags_score:
  "map score (hydrate_with_hashtags w ps) = map score ps"
  by (simp add: hydrate_with_hashtags_def)

lemma fused_by_fields:
  "fused w ps = (distinct (map (standardize_url w) (map canonical_url ps))
                 \<and> sorted_wrt (\<lambda>a b. b \<le> a) (map score ps))"
  by (simp add: fused_def score_sorted_def sorted_wrt_map comp_def)

lemma score_sorted_by_scores: "score_sorted ps = sorted_wrt (\<lambda>a b. b \<le> a) (map score ps)"
  by (simp add: score_sorted_def sorted_wrt_map)

lemma fused_pipeline:
  "fused w (hydrate_with_hashtags w
              (hydrate_with_hash_url w
                 (deduplicate (standardize_url w) (sort_key (\<lambda>x. - score x) sp)) sid m))"
proof -
  let ?d = "deduplicate (standardize_url w) (sort_key (\<lambda>x. - score x) sp)"
  have "score_sorted ?d" using deduplicate_sorted score_sorted_sort by blast
  moreover have "distinct (map (\<lambda>p. standardize_url w (canonical_url p)) ?d)"
    by (rule deduplicate_distinct)
  ultimately have "fused w ?d" by (simp add: fused_def)
  then show ?thesis
    by (simp only: fused_by_fields hydrate_hash_url_url hydrate_hash_url_score
          hydrate_hashtags_url hydrate_hashtags_score)
qed

lemma fused_sorted: "fused w ps \<Longrightarrow> score_sorted ps"
  by (simp add: fused_def)

lemma cache_search_inserts_fused:
  "io_inv (\<lambda>s. True) (inserts_fused w) (cache_search w q sid i cs u own tg uc)"
  unfolding cache_search_def Let_def
  by (auto intro!: io_inv_intros io_inv_rerank_any fused_pipeline split: list.splits option.splits)

lemma inserts_fused_sorted: "inserts_fused w ev \<Longrightarrow> inserts_sorted ev"
  by (cases ev) (simp_all add: fused_sorted)

subsection \<open>Rules for \<open>io_same\<close>\<close>

lemma io_same_return: "io_same (io_return x)"
  by (simp add: io_same_def)

lemma io_same_raise: "io_same (io_raise e)"
  by (simp add: io_same_def)

lemma io_same_call: "io_same (io_call ev a)"
  by (simp add: io_same_def)

lemma io_sameD:
  "io_same m \<Longrightarrow> cache_store s = cache_store s' \<Longrightarrow>
   outcome (m s) = outcome (m s')
   \<and> cache_store (state_after (m s)) = cache_store (state_after (m s'))"
  unfolding io_same_def by blast

lemma io_same_bind:
  assumes "io_same m" and "\<And>x. io_same (f x)"
  shows "io_same (io_bind m f)"
  unfolding io_same_def
proof (intro allI impI)
  fix s s' :: pstate assume eq: "cache_store s = cache_store s'"
  from io_sameD[OF assms(1) eq] have m: "outcome (m s) = outcome (m s')"
    "cache_store (state_after (m s)) = cache_store (state_after (m s'))"
    by blast+
  show "outcome (io_bind m f s) = outcome (io_bind m f s') \<and>
        cache_store (state_after (io_bind m f s)) = cache_store (state_after (io_bind m f s'))"
  proof (cases "outcome (m s)")
    case (Inl e)
    with m have Inl': "outcome (m s') = Inl e" by simp
    from io_bind_Inl[where m=m and s=s and f=f, OF Inl]
         io_bind_Inl[where m=m and s=s' and f=f, OF Inl'] m show ?thesis by simp
  next
    case (Inr x)
    with m have Inr': "outcome (m s') = Inr x" by simp
    from io_sameD[OF assms(2)[of x] m(2)]
    have "outcome (f x (state_after (m s))) = outcome (f x (state_after (m s')))"
      "cache_store (state_after (f x (state_after (m s))))
         = cache_store (state_after (f x (state_after (m s'))))"
      by blast+
    with io_bind_Inr[where m=m and s=s and f=f, OF Inr]
         io_bind_Inr[where m=m and s=s' and f=f, OF Inr'] show ?thesis by simp
  qed
qed

lemma io_same_catch:
  assumes "io_same m" and "\<And>e. io_same (h e)"
  shows "io_same (io_catch m h)"
  unfolding io_same_def
proof (intro allI impI)
  fix s s' :: pstate assume eq: "cache_store s = cache_store s'"
  from io_sameD[OF assms(1) eq] have m: "outcome (m s) = outcome (m s')"
    "cache_store (state_after (m s)) = cache_store (state_after (m s'))"
    by blast+
  show "outcome (io_catch m h s) = outcome (io_catch m h s') \<and>
        cache_store (state_after (io_catch m h s)) = cache_store (state_after (io_catch m h s'))"
  proof (cases "outcome (m s)")
    case (Inr x)
    with m have Inr': "outcome (m s') = Inr x" by simp
    from io_catch_Inr[where m=m and s=s and h=h, OF Inr]
         io_catch_Inr[where m=m and s=s' and h=h, OF Inr'] m show ?thesis by simp
  next
    case (Inl e)
    with m have Inl': "outcome (m s') = Inl e" by simp
    from io_sameD[OF assms(2)[of e] m(2)]
    have "outcome (h e (state_after (m s))) = outcome (h e (state_after (m s')))"
      "cache_store (state_after (h e (state_after (m s))))
         = cache_store (state_after (h e (state_after (m s'))))"
      by blast+
    with io_catch_Inl[where m=m and s=s and h=h, OF Inl]
         io_catch_Inl[where m=m and s=s' and h=h, OF Inl'] show ?thesis by simp
  qed
qed

lemma io_same_Cache_init: "io_same (Cache_init w)"
  by (simp add: Cache_init_def io_same_call)

lemma io_same_Cache_search: "io_same (Cache_search w u sid i)"
  by (simp add: io_same_def Cache_search_def outcome_def state_after_def split: option.splits)

lemma io_same_Cache_insert: "io_same (Cache_insert w u sid ps i)"
  by (simp add: io_same_def Cache_insert_def outcome_def state_after_def split: option.splits)

lemma io_same_core_retrieve: "io_same (core_retrieve w url cs hits)"
proof (induction cs arbitrary: hits)
  case Nil
  then show ?case by (simp add: io_same_return)
next
  case (Cons c cs)
  show ?case
    by (auto intro!: io_same_bind io_same_call Cons split: option.splits)
qed

lemma neural_rerank_total:
  "\<exists>x. outcome (neural_rerank w ps q s) = Inr x"
  by (simp add: neural_rerank_def outcome_def 
      split: option.splits rerank_outcome.splits payload.splits)

lemma neural_rerank_store:
  "cache_store (state_after (neural_rerank w ps q s)) = cache_store s"
  by (simp add: neural_rerank_def state_after_def 
      split: option.splits rerank_outcome.splits payload.splits)

lemma io_same_after_rerank:
  assumes "io_same g"
  shows "io_same (io_bind (neural_rerank w ps q) (\<lambda>x. g))"
  unfolding io_same_def
proof (intro allI impI)
  fix s s' :: pstate assume eq: "cache_store s = cache_store s'"
  obtain x where x: "outcome (neural_rerank w ps q s) = Inr x" 
    using neural_rerank_total by blast
  obtain x' where x': "outcome (neural_rerank w ps q s') = Inr x'" 
    using neural_rerank_total by blast
  let ?t = "state_after (neural_rerank w ps q s)" and ?t' = "state_after (neural_rerank w ps q s')"
  from eq have "cache_store ?t = cache_store ?t'" by (simp add: neural_rerank_store)
  from io_sameD[OF assms this] have "outcome (g ?t) = outcome (g ?t')"
    "cache_store (state_after (g ?t)) = cache_store (state_after (g ?t'))"
    by blast+
  with io_bind_Inr[where m="neural_rerank w ps q" and s=s and f="\<lambda>x. g", OF x]
       io_bind_Inr[where m="neural_rerank w ps q" and s=s' and f="\<lambda>x. g", OF x']
  show "outcome (io_bind (neural_rerank w ps q) (\<lambda>x. g) s)
          = outcome (io_bind (neural_rerank w ps q) (\<lambda>x. g) s') \<and>
        cache_store (state_after (io_bind (neural_rerank w ps q) (\<lambda>x. g) s))
          = cache_store (state_after (io_bind (neural_rerank w ps q) (\<lambda>x. g) s'))"
    by simp
qed

lemmas io_same_intros = io_same_after_rerank io_same_bind io_same_catch io_same_return
  io_same_raise io_same_call io_same_Cache_init io_same_Cache_search io_same_Cache_insert
  io_same_core_retrieve

lemma io_same_cache_search: "io_same (cache_search w q sid i cs u own tg uc)"
  unfolding cache_search_def Let_def
  by (auto intro!: io_same_intros split: list.splits option.splits)

lemma io_same_search_session: "io_same (search_session w cu req src q own tg)"
  unfolding search_session_def
  by (auto intro!: io_same_intros split: option.splits sum.splits)

lemma io_same_search_prepare: "io_same (search_prepare w cu req)"
  unfolding search_prepare_def Let_def
  by (auto intro!: io_same_intros io_same_search_session split: option.splits sum.splits prod.splits)

lemma io_same_search: "io_same (search w cu req)"
  unfolding search_def search_try_def
  by (auto intro!: io_same_intros io_same_search_prepare io_same_cache_search split: sum.splits)

lemma search_ignores_neural_api:
  "outcome (search w cu req s) = outcome (search w cu req (s\<lparr>neural_api := n\<rparr>))"
  using io_sameD[OF io_same_search[of w cu req], of s "s\<lparr>neural_api := n\<rparr>"] by simp

section \<open>The claims on the search path\<close>

lemma search_calls: "set (calls (search w cu req s)) = set (calls (search_try w cu req s))"
proof (cases "outcome (search_try w cu req s)")
  case (Inl e)
  from io_catch_Inl[where m="search_try w cu req" and s=s, OF Inl] show ?thesis
    by (simp add: search_def)
next
  case (Inr x)
  from io_catch_Inr[where m="search_try w cu req" and s=s, OF Inr] show ?thesis
    by (simp add: search_def)
qed

lemma search_error:
  "outcome (search_try w cu req s) = Inl e \<Longrightarrow>
   outcome (search w cu req s)
     = Inr (Error ''Failed to search, please try again later.'' INTERNAL_SERVER_ERROR)"
  using io_catch_Inl[where m="search_try w cu req" and s=s and e=e]
  by (simp add: search_def)

text \<open>
  Claim C1 says that a successful rerank call decides the order of the returned list. In
  \<^verbatim>\<open>cache_search\<close> the list of the reranker is assigned to \<^verbatim>\<open>pages\<close> (line 1130) and
  \<^verbatim>\<open>pages\<close> is assigned again, from the sorted \<^verbatim>\<open>submissions_pages\<close>, at line 1142. In the
  small installation the reranking service answers status 200 with the order c2, b2, b1, a1,
  and the page returned is a1, b2, c2, the order of the scores.
\<close>

theorem rerank_order_discarded:
  "rerank_answers example_world
     (calls (search example_world example_user example_request initial_state))
     = [Some [''c2'', ''b2'', ''b1'', ''a1'']]
   \<and> page_ids (outcome (search example_world example_user example_request initial_state))
     = Some [''a1'', ''b2'', ''c2'']"
  by code_simp

text \<open>
  Claim C7 says that a search still answers its page when the cache cannot be constructed
  or written. \<^verbatim>\<open>cache_search\<close> catches the failure of \<^verbatim>\<open>Cache()\<close> and goes on with
  \<^verbatim>\<open>cache = None\<close>, guards the lookup with \<^verbatim>\<open>if cache\<close>, and then calls
  \<^verbatim>\<open>cache.insert\<close> without a guard (line 1151): with the cache down this raises
  \<^verbatim>\<open>AttributeError\<close>, with a failing write the exception of the store, and \<^verbatim>\<open>search\<close>
  answers its error response although both gateways answered.
\<close>

theorem cache_failure_fails_search:
  "outcome (search example_world_cache_down example_user example_request initial_state)
     = Inr (Error ''Failed to search, please try again later.'' INTERNAL_SERVER_ERROR)
   \<and> outcome (search example_world_cache_readonly example_user example_request initial_state)
     = Inr (Error ''Failed to search, please try again later.'' INTERNAL_SERVER_ERROR)
   \<and> outcome (cache_search example_world_cache_down ''fusion'' ''s1'' 0 [(home, ''Home'')] ''u1''
                 False True None initial_state) = Inl AttributeError
   \<and> outcome (cache_search example_world_cache_readonly ''fusion'' ''s1'' 0 [(home, ''Home'')] ''u1''
                 False True None initial_state) = Inl CacheError"
  by code_simp

text \<open>
  Claim C2 says that a failing gateway counts as zero hits and that only the failure of all
  sources is an error for the user. No gateway call of \<^verbatim>\<open>cache_search\<close> is inside a
  \<^verbatim>\<open>try\<close>: here the webpages gateway raises, the submissions gateway answers A and B, and
  the response is the error.
\<close>

theorem gateway_failure_counterexample:
  "webpages_search example_world_web_down ''fusion'' = Inl GatewayError
   \<and> submissions_search example_world_web_down ''fusion'' [home] = Inr [hit_A, hit_B]
   \<and> outcome (search example_world_web_down example_user example_request initial_state)
     = Inr (Error ''Failed to search, please try again later.'' INTERNAL_SERVER_ERROR)"
  by code_simp

text \<open>
  Claim C2, as amended. Whenever a query that a search request made of a gateway raised,
  the response of the request is the error \<^verbatim>\<open>Failed to search, please try again later.\<close>
  with status 500: the exception leaves \<^verbatim>\<open>cache_search\<close> and is caught by the handler of
  \<^verbatim>\<open>search\<close>, whether or not the other source answered.
\<close>

theorem gateway_failure_is_error:
  assumes "ev \<in> set (calls (search w cu req s))" and "gateway_raised w ev"
  shows "outcome (search w cu req s)
           = Inr (Error ''Failed to search, please try again later.'' INTERNAL_SERVER_ERROR)"
proof -
  from assms have "list_ex (gateway_raised w) (calls (search_try w cu req s))"
    by (auto simp: search_calls list_ex_iff)
  with io_strict_search_try[of w cu req] have "isl (outcome (search_try w cu req s))"
    by (simp add: io_strict_def)
  then obtain e where "outcome (search_try w cu req s) = Inl e" by (auto simp: isl_def)
  then show ?thesis by (rule search_error)
qed

theorem gateway_failure_is_error_witness:
  "SubmissionsSearch ''fusion'' [home] \<in> set (calls (search example_world_web_down example_user example_request initial_state))
   \<and> \<not> gateway_raised example_world_web_down (SubmissionsSearch ''fusion'' [home])
   \<and> WebpagesSearch ''fusion'' \<in> set (calls (search example_world_web_down example_user example_request initial_state))
   \<and> gateway_raised example_world_web_down (WebpagesSearch ''fusion'')
   \<and> outcome (search example_world_web_down example_user example_request initial_state)
        = Inr (Error ''Failed to search, please try again later.'' INTERNAL_SERVER_ERROR)"
proof -
  have c: "calls (search example_world_web_down example_user example_request initial_state)
        = [LogSearch ''webpage_search'' ''fusion'' [home], GetCommunities, CacheNew,
           CacheSearch ''u1'' ''s1'' 0, SubmissionsSearch ''fusion'' [home], WebpagesSearch ''fusion'']"
    by code_simp
  have g: "gateway_raised example_world_web_down (WebpagesSearch ''fusion'')" by code_simp
  have n: "\<not> gateway_raised example_world_web_down (SubmissionsSearch ''fusion'' [home])" by code_simp
  have m: "WebpagesSearch ''fusion'' \<in> set (calls (search example_world_web_down example_user example_request initial_state))"
    by (simp add: c)
  from gateway_failure_is_error[OF m g] c g n show ?thesis by simp
qed

lemma io_inv_weaken: "io_inv I P m \<Longrightarrow> (\<And>ev. P ev \<Longrightarrow> Q ev) \<Longrightarrow> io_inv I Q m"
  by (auto simp: io_inv_def list_all_iff)

lemma search_inserts_sorted: "io_inv (\<lambda>s. True) inserts_sorted (search w cu req)"
  unfolding search_def search_try_def
  by (auto intro!: io_inv_intros io_inv_search_prepare 
        io_inv_weaken[OF cache_search_inserts_fused inserts_fused_sorted]
      split: sum.splits)

lemma serve_inserts_sorted:
  "r \<in> set (serve later s) \<Longrightarrow> list_all inserts_sorted (calls r)"
proof (induction later arbitrary: s)
  case Nil
  then show ?case by simp
next
  case (Cons a later)
  obtain w cu req where a: "a = (w, cu, req)" by (cases a) auto
  from search_inserts_sorted[of w cu req]
  have 1: "list_all inserts_sorted (calls (search w cu req s))"
    by (simp add: io_inv_def)
  from Cons.prems a have "r = search w cu req s \<or> r \<in> set (serve later (state_after (search w cu req s)))"
    by simp
  then show ?case
  proof
    assume "r = search w cu req s" with 1 show ?thesis by simp
  next
    assume "r \<in> set (serve later (state_after (search w cu req s)))"
    then show ?thesis by (rule Cons.IH)
  qed
qed

text \<open>
  Claim C6 says that the first failing rerank call, whether a timeout, a status other than
  2xx or a malformed payload, turns reranking off for the rest of the process. The variable
  \<^verbatim>\<open>neural_api\<close> is deleted in the \<^verbatim>\<open>except\<close> branch only, and a response with another status
  than 200 raises nothing: here the service answers status 500 to the first search, and the
  next search of the same process calls it again.
\<close>

theorem rerank_status_counterexample:
  "rerank_outcomes example_world_500
     (calls (search example_world_500 example_user example_request initial_state))
     = [Response 500 NotJson]
   \<and> rerank_outcomes example_world_500_next
     (calls (search example_world_500_next example_user example_request
               (state_after (search example_world_500 example_user example_request initial_state))))
     = [Response 500 NotJson]"
  by code_simp

text \<open>
  Claim C6, as amended. After a search whose rerank call raised (the request itself raised,
  or the response had status 200 and a body that is not JSON or has no \<^verbatim>\<open>pages\<close>), the
  variable \<^verbatim>\<open>neural_api\<close> is gone; no later search of the process makes a rerank call and
  every list a later search puts into the cache is sorted by score; and the response of the
  search is the one it gives with reranking off, so the failure does not reach the caller.
\<close>

theorem rerank_exception_disables:
  assumes "ev \<in> set (calls (search w cu req s))" and "rerank_failed w ev"
  shows "neural_api (state_after (search w cu req s)) = None
       \<and> (\<forall>r \<in> set (serve later (state_after (search w cu req s))).
            \<forall>ev' \<in> set (calls r). \<not> is_rerank_post ev' \<and> inserts_sorted ev')
       \<and> outcome (search w cu req s) = outcome (search w cu req (s\<lparr>neural_api := None\<rparr>))"
proof (intro conjI ballI)
  from assms have "list_ex (rerank_failed w) (calls (search w cu req s))"
    by (auto simp: list_ex_iff)
  with search_after_failed_rerank[of w cu req]
  show off: "neural_api (state_after (search w cu req s)) = None"
    by (simp add: io_after_def)
  fix r ev' assume r: "r \<in> set (serve later (state_after (search w cu req s)))"
    and ev': "ev' \<in> set (calls r)"
  from serve_no_rerank[OF off r] ev' show "\<not> is_rerank_post ev'" by (simp add: list_all_iff)
  from serve_inserts_sorted[OF r] ev' show "inserts_sorted ev'" by (simp add: list_all_iff)
next
  show "outcome (search w cu req s) = outcome (search w cu req (s\<lparr>neural_api := None\<rparr>))"
    by (rule search_ignores_neural_api)
qed

theorem rerank_exception_disables_witness:
  "rerank_outcomes example_world_timeout
     (calls (search example_world_timeout example_user example_request initial_state))
     = [PostRaised]
   \<and> neural_api (state_after (search example_world_timeout example_user example_request initial_state)) = None
   \<and> rerank_outcomes example_world_next
        (calls (search example_world_next example_user example_request
                  (state_after (search example_world_timeout example_user example_request initial_state))))
     = []
   \<and> page_ids (outcome (search example_world_timeout example_user example_request initial_state))
     = Some [''a1'', ''b2'', ''c2'']"
proof -
  let ?P = "[\<lparr>source_id = ''a1'', source_kind = Submission, score = 9 / 10,
       canonical_url = ''http://a.org'', title = ''A'', snippet = ''on a'',
       item_hashtags = [], rank = - 1, result_hash = [], redirect_url = []\<rparr>,
    \<lparr>source_id = ''b1'', source_kind = Submission, score = 5 / 10,
       canonical_url = ''http://b.org'', title = ''B'', snippet = ''on b'',
       item_hashtags = [], rank = - 1, result_hash = [], redirect_url = []\<rparr>,
    \<lparr>source_id = ''b2'', source_kind = Webpage, score = 7 / 10,
       canonical_url = ''http://b.org'', title = ''B'', snippet = ''page b'',
       item_hashtags = [], rank = - 1, result_hash = [], redirect_url = []\<rparr>,
    \<lparr>source_id = ''c2'', source_kind = Webpage, score = 3 / 10,
       canonical_url = ''http://c.org'', title = ''C'', snippet = ''page c'',
       item_hashtags = [], rank = - 1, result_hash = [], redirect_url = []\<rparr>]"
  have m: "RerankPost ?P ''fusion''
             \<in> set (calls (search example_world_timeout example_user example_request initial_state))"
    by code_simp
  have f: "rerank_failed example_world_timeout (RerankPost ?P ''fusion'')" by code_simp
  have a: "rerank_outcomes example_world_timeout
     (calls (search example_world_timeout example_user example_request initial_state))
     = [PostRaised]" by code_simp
  have b: "rerank_outcomes example_world_next
        (calls (search example_world_next example_user example_request
                  (state_after (search example_world_timeout example_user example_request initial_state))))
     = []" by code_simp
  have c: "page_ids (outcome (search example_world_timeout example_user example_request initial_state))
     = Some [''a1'', ''b2'', ''c2'']" by code_simp
  from rerank_exception_disables[OF m f, of "[(example_world_next, example_user, example_request)]"]
       a b c show ?thesis by simp
qed

section \<open>Hashtag queries and the webpages index\<close>

subsection \<open>The webpage toggle\<close>

lemma search_session_toggle:
  "io_post (\<lambda>r. case r of Inl resp \<Rightarrow> True | Inr (sid, q', own', rcs, tg) \<Rightarrow> \<not> tg)
     (search_session w cu req src q own False)"
  unfolding search_session_def
  by (auto intro!: io_post_bind[where ?Q1.0="\<lambda>x. True"] io_post_return io_post_raise io_post_True
      split: option.splits sum.splits)

lemma search_prepare_toggle:
  assumes "CHR ''#'' \<in> set (take 1000 (args_get req ''query'' []))"
  shows "io_post (\<lambda>r. case r of Inl resp \<Rightarrow> True | Inr a \<Rightarrow> \<not> sa_toggle_webpage_results a)
           (search_prepare w cu req)"
proof -
  from assms have ne: "take 1000 (args_get req ''query'' []) \<noteq> []" by auto
  show ?thesis
    unfolding search_prepare_def Let_def
    using assms ne
    by (auto intro!: io_post_bind[OF search_session_toggle]
                     io_post_bind[where ?Q1.0="\<lambda>x. True"] io_post_return io_post_raise io_post_True
        split: option.splits sum.splits prod.splits)
qed

lemma search_try_no_web:
  assumes "CHR ''#'' \<in> set (take 1000 (args_get req ''query'' []))"
  shows "io_inv (\<lambda>s. True) (\<lambda>ev. \<not> is_webpages_search ev) (search_try w cu req)"
  unfolding search_try_def
  by (rule io_inv_bind_post[OF _ search_prepare_toggle[OF assms]])
     (auto intro!: io_inv_intros io_inv_search_prepare cache_search_no_web split: sum.splits)

subsection \<open>Independence of the webpages index\<close>

lemma core_retrieve_web:
  "core_retrieve (w\<lparr>webpages_search := g\<rparr>) url cs hits = core_retrieve w url cs hits"
  by (induction cs arbitrary: hits) (simp_all cong: option.case_cong)

lemma neural_rerank_web:
  "neural_rerank (w\<lparr>webpages_search := g\<rparr>) ps q = neural_rerank w ps q"
  by (simp add: neural_rerank_def cong: option.case_cong rerank_outcome.case_cong)

lemma cache_web:
  "Cache_init (w\<lparr>webpages_search := g\<rparr>) = Cache_init w"
  "Cache_search (w\<lparr>webpages_search := g\<rparr>) u sid i = Cache_search w u sid i"
  "Cache_insert (w\<lparr>webpages_search := g\<rparr>) u sid ps i = Cache_insert w u sid ps i"
  by (simp_all add: Cache_init_def Cache_search_def Cache_insert_def cong: option.case_cong)

lemma hydrate_web:
  "hydrate_with_hash_url (w\<lparr>webpages_search := g\<rparr>) ps sid m = hydrate_with_hash_url w ps sid m"
  "hydrate_with_hashtags (w\<lparr>webpages_search := g\<rparr>) ps = hydrate_with_hashtags w ps"
  by (simp_all add: hydrate_with_hash_url_def hydrate_with_hashtags_def)

lemma cache_search_web:
  "cache_search (w\<lparr>webpages_search := g\<rparr>) q sid i cs u own False uc
     = cache_search w q sid i cs u own False uc"
  by (simp add: cache_search_def core_retrieve_web neural_rerank_web cache_web hydrate_web
      cong: if_cong option.case_cong list.case_cong)

lemma search_session_web:
  "search_session (w\<lparr>webpages_search := g\<rparr>) cu req src q own tg = search_session w cu req src q own tg"
  by (simp add: search_session_def cong: if_cong option.case_cong sum.case_cong)

lemma search_prepare_web:
  "search_prepare (w\<lparr>webpages_search := g\<rparr>) cu req = search_prepare w cu req"
  by (simp add: search_prepare_def search_session_web extension_query_def
      cong: if_cong option.case_cong sum.case_cong)

lemma io_bind_cong_post:
  assumes "io_post Q m" and "\<And>x. Q x \<Longrightarrow> f x = g x"
  shows "io_bind m f = io_bind m g"
proof
  fix s
  show "io_bind m f s = io_bind m g s"
  proof (cases "m s")
    case (fields r s' t)
    show ?thesis
    proof (cases r)
      case (Inl e)
      with fields show ?thesis by (simp add: io_bind_def)
    next
      case (Inr x)
      with fields have "outcome (m s) = Inr x" by (simp add: outcome_def)
      with assms(1) have "Q x" by (auto simp: io_post_def)
      then have "f x = g x" by (rule assms(2))
      with fields Inr show ?thesis by (simp add: io_bind_def)
    qed
  qed
qed

lemma search_web:
  assumes "CHR ''#'' \<in> set (take 1000 (args_get req ''query'' []))"
  shows "search (w\<lparr>webpages_search := g\<rparr>) cu req = search w cu req"
proof -
  have "search_try (w\<lparr>webpages_search := g\<rparr>) cu req = search_try w cu req"
    unfolding search_try_def search_prepare_web
    by (rule io_bind_cong_post[OF search_prepare_toggle[OF assms]])
       (auto simp: cache_search_web split: sum.splits)
  then show ?thesis by (simp add: search_def)
qed

lemma search_prepare_typed:
  assumes "CHR ''#'' \<in> set (take 1000 (args_get req ''query'' []))"
  shows "io_post (\<lambda>r. case r of
                    Inl resp \<Rightarrow> True
                  | Inr a \<Rightarrow> \<not> sa_toggle_webpage_results a \<and> sa_url_core_retrieve a = None)
           (search_prepare w cu req)"
proof -
  from assms have ne: "take 1000 (args_get req ''query'' []) \<noteq> []" by auto
  show ?thesis
    unfolding search_prepare_def Let_def
    using assms ne
    by (auto intro!: io_post_bind[OF search_session_toggle]
                     io_post_bind[where ?Q1.0="\<lambda>x. True"] io_post_return io_post_raise io_post_True
        simp: extension_query_def Let_def
        split: option.splits sum.splits prod.splits if_splits)
qed

lemma cache_search_no_web_no_core:
  "io_inv (\<lambda>s. True) (\<lambda>ev. \<not> is_webpages_search ev \<and> \<not> is_core_find_one ev)
     (cache_search w q sid i cs u own False None)"
  unfolding cache_search_def Let_def
  by (auto intro!: io_inv_intros io_inv_rerank_any split: list.splits option.splits)

lemma search_try_typed:
  assumes "CHR ''#'' \<in> set (take 1000 (args_get req ''query'' []))"
  shows "io_inv (\<lambda>s. True) (\<lambda>ev. \<not> is_webpages_search ev \<and> \<not> is_core_find_one ev)
           (search_try w cu req)"
  unfolding search_try_def
  by (rule io_inv_bind_post[OF _ search_prepare_typed[OF assms]])
     (auto intro!: io_inv_intros io_inv_search_prepare cache_search_no_web_no_core split: sum.splits)

text \<open>
  Claim C10 says that a new search whose query string contains the character \<^verbatim>\<open>#\<close> never
  queries the webpages index. The test for \<^verbatim>\<open>#\<close> (line 629) is made on the typed query,
  before the query of a page-open search is derived from the URL or the highlighted text
  (lines 634-650): a page-open search on a URL with a fragment has the URL as its query,
  which is logged, sent to the gateways and returned, and it queries the webpages index.
\<close>

theorem typed_hashtag_query_counterexample:
  "response_query (outcome (search example_world example_user example_request_fragment initial_state))
     = Some ''http://a.org/#top''
   \<and> CHR ''#'' \<in> set ''http://a.org/#top''
   \<and> WebpagesSearch ''http://a.org/#top''
       \<in> set (calls (search example_world example_user example_request_fragment initial_state))"
  by code_simp

text \<open>
  Claim C10, as amended. The typed query of a search is the \<^verbatim>\<open>query\<close> argument of the
  request, cut to its first 1000 characters (line 623). When it contains the character
  \<^verbatim>\<open>#\<close>, the request makes no query of the webpages index and looks no community core up
  (the curated content is asked for only when nothing was typed), and what it does
  (response, state and calls) does not depend on the webpages index at all: the result is
  built from the hits of the submissions index only. This holds for every such request, a
  new search in particular.
\<close>

theorem hashtag_query_skips_webpages:
  assumes "CHR ''#'' \<in> set (take 1000 (args_get req ''query'' []))"
  shows "WebpagesSearch q \<notin> set (calls (search w cu req s))
       \<and> CoreFindOne c \<notin> set (calls (search w cu req s))
       \<and> search (w\<lparr>webpages_search := g\<rparr>) cu req s = search w cu req s"
proof (intro conjI)
  from search_try_typed[OF assms, of w cu]
  have "list_all (\<lambda>ev. \<not> is_webpages_search ev \<and> \<not> is_core_find_one ev)
          (calls (search_try w cu req s))"
    by (simp add: io_inv_def)
  then show "WebpagesSearch q \<notin> set (calls (search w cu req s))"
    and "CoreFindOne c \<notin> set (calls (search w cu req s))"
    by (auto simp: search_calls list_all_iff)
  show "search (w\<lparr>webpages_search := g\<rparr>) cu req s = search w cu req s"
    by (simp add: search_web[OF assms])
qed

theorem hashtag_query_skips_webpages_witness:
  "CHR ''#'' \<in> set (take 1000 (args_get example_request_hashtag ''query'' []))
   \<and> WebpagesSearch ''#ml fusion''
       \<notin> set (calls (search example_world example_user example_request_hashtag initial_state))
   \<and> page_ids (outcome (search example_world_web_down example_user example_request_hashtag
                              initial_state)) = Some [''a1'', ''b1'']"
proof -
  have h: "CHR ''#'' \<in> set (take 1000 (args_get example_request_hashtag ''query'' []))"
    by code_simp
  have p: "page_ids (outcome (search example_world example_user example_request_hashtag
                              initial_state)) = Some [''a1'', ''b1'']"
    by code_simp
  from hashtag_query_skips_webpages[OF h, of "''#ml fusion''" example_world example_user
         initial_state home "\<lambda>q. Inl GatewayError"] h p
  show ?thesis by (simp add: example_world_web_down_def)
qed

section \<open>Deduplication and the fused list\<close>

subsection \<open>The page returned after an insertion\<close>





subsection \<open>The list that is inserted\<close>

lemma outcome_call_bind:
  "outcome (io_bind (io_call ev a) f s) = (case a of Inl e \<Rightarrow> Inl e | Inr x \<Rightarrow> outcome (f x s))"
  by (simp add: io_bind_def io_call_def outcome_def split: sum.splits prod.splits)

lemma core_retrieve_result:
  "outcome (core_retrieve w url cs hits0 s) = Inr result \<Longrightarrow>
   result = hits0 @ concat (map (boosted_hits w url) cs)"
proof (induction cs arbitrary: hits0)
  case Nil
  then show ?case by simp
next
  case (Cons c cs)
  show ?case
  proof (cases "core_find_one w c")
    case (Inl e)
    with Cons.prems show ?thesis by (simp add: outcome_call_bind)
  next
    case found: (Inr entry)
    show ?thesis
    proof (cases entry)
      case None
      with found Cons.prems have "outcome (core_retrieve w url cs hits0 s) = Inr result"
        by (simp add: outcome_call_bind)
      from Cons.IH[OF this] found None show ?thesis by (simp add: boosted_hits_def)
    next
      case (Some content)
      show ?thesis
      proof (cases "content url")
        case None
        with found Some Cons.prems have "outcome (core_retrieve w url cs hits0 s) = Inr result"
          by (simp add: outcome_call_bind)
        from Cons.IH[OF this] found Some None show ?thesis by (simp add: boosted_hits_def)
      next
        case tags: (Some tags)
        show ?thesis
        proof (cases "submissions_search w (py_join '' '' (list_set w tags)) [c]")
          case (Inl e)
          with found Some tags Cons.prems show ?thesis by (simp add: outcome_call_bind)
        next
          case (Inr core_hits)
          with found Some tags Cons.prems
          have "outcome (core_retrieve w url cs
                  (hits0 @ map (\<lambda>hit. hit\<lparr>hit_score := float_add w (hit_score hit) 100\<rparr>) core_hits) s)
                = Inr result"
            by (simp add: outcome_call_bind)
          from Cons.IH[OF this] found Some tags Inr show ?thesis
            by (simp add: boosted_hits_def)
        qed
      qed
    qed
  qed
qed

lemma io_post_call: "io_post (\<lambda>x. a = Inr x) (io_call ev a)"
  by (simp add: io_post_def)

lemma io_post_core_retrieve:
  "io_post (\<lambda>hits. hits = hits0 @ concat (map (boosted_hits w url) cs)) (core_retrieve w url cs hits0)"
  unfolding io_post_def using core_retrieve_result by blast

lemma step_call:
  assumes "P ev" and "\<And>x. a = Inr x \<Longrightarrow> io_inv I P (f x)"
  shows "io_inv I P (io_bind (io_call ev a) f)"
proof -
  have "io_inv I P (io_call ev a)" using assms(1) by (rule io_inv_call)
  then show ?thesis using io_post_call by (rule io_inv_bind_post) (rule assms(2))
qed

lemma step_core:
  assumes "\<And>c. P (CoreFindOne c)" and "\<And>q cs. P (SubmissionsSearch q cs)"
    and "\<And>hits. hits = hits0 @ (case uc of None \<Rightarrow> [] 
                      | Some u \<Rightarrow> concat (map (boosted_hits w (standardize_url w u)) cs))
           \<Longrightarrow> io_inv I P (f hits)"
  shows "io_inv I P (io_bind (case uc of None \<Rightarrow> io_return hits0
                               | Some u \<Rightarrow> core_retrieve w (standardize_url w u) cs hits0) f)"
proof (cases uc)
  case None
  have "io_post (\<lambda>hits. hits = hits0) (io_return hits0)" by (simp add: io_post_def)
  from io_inv_bind_post[OF io_inv_return this, of I P f] assms(3) None show ?thesis by simp
next
  case (Some u)
  have "io_inv I P (core_retrieve w (standardize_url w u) cs hits0)"
    by (rule io_inv_core_retrieve) (rule assms(1), rule assms(2))
  from io_inv_bind_post[OF this io_post_core_retrieve, of f] assms(3) Some show ?thesis by simp
qed

lemma step_web:
  assumes "\<And>q. P (WebpagesSearch q)"
    and "\<And>pages. pages = a @ (if tg then create_page (case webpages_search w q of Inr h \<Rightarrow> h | Inl e \<Rightarrow> []) cs else [])
           \<Longrightarrow> io_inv I P (f pages)"
  shows "io_inv I P (io_bind (if tg
                 then io_bind (io_call (WebpagesSearch q) (webpages_search w q))
                        (\<lambda>webpages_hits. io_return (combine_pages a (create_page webpages_hits cs)))
                 else io_return a) f)"
proof (cases tg)
  case False
  have "io_post (\<lambda>pages. pages = a) (io_return a)" by (simp add: io_post_def)
  from io_inv_bind_post[OF io_inv_return this, of I P f] assms(2) False show ?thesis by simp
next
  case True
  let ?m = "io_bind (io_call (WebpagesSearch q) (webpages_search w q))
                        (\<lambda>webpages_hits. io_return (combine_pages a (create_page webpages_hits cs)))"
  have inv: "io_inv I P ?m"
    by (rule io_inv_bind) (rule io_inv_call, rule assms(1), rule io_inv_return)
  have post: "io_post (\<lambda>pages. pages = a @ create_page (case webpages_search w q of Inr h \<Rightarrow> h | Inl e \<Rightarrow> []) cs) ?m"
    by (rule io_post_bind[OF io_post_call]) (simp add: io_post_return combine_pages_def)
  from io_inv_bind_post[OF inv post, of f] assms(2) True show ?thesis by simp
qed

lemma step_rerank:
  assumes "\<And>ps q. P (RerankPost ps q)" and "\<And>x. io_inv (\<lambda>s. True) P (f x)"
  shows "io_inv (\<lambda>s. True) P (io_bind (neural_rerank w ps q) f)"
  by (rule io_inv_bind) (rule io_inv_rerank_any, rule assms(1), simp, rule assms(2))

lemma step_insert:
  "P (CacheInsert u sid ps i) \<Longrightarrow> io_inv (\<lambda>s. True) P (insert_and_return w c u sid ps i)"
  unfolding insert_and_return_def
  by (auto intro!: io_inv_intros)

lemma cache_search_tail:
  "io_inv (\<lambda>s. True) (inserts (\<lambda>pages. pages = fuse w sid (fusion_candidates w q cs tg uc)))
     (io_bind (io_call (SubmissionsSearch q (map fst cs)) (submissions_search w q (map fst cs)))
          (\<lambda>submissions_hits.
        io_bind (case uc of
                   None \<Rightarrow> io_return submissions_hits
                 | Some u \<Rightarrow>
                     core_retrieve w (standardize_url w u) (map fst cs) submissions_hits)
          (\<lambda>submissions_hits.
        io_bind (if tg
                 then io_bind (io_call (WebpagesSearch q) (webpages_search w q))
                        (\<lambda>webpages_hits.
                           io_return (combine_pages (create_page submissions_hits cs)
                                        (create_page webpages_hits cs)))
                 else io_return (create_page submissions_hits cs))
          (\<lambda>submissions_pages.
        io_bind (neural_rerank w submissions_pages q)
          (\<lambda>pages. insert_and_return w c u sid
              (hydrate_with_hashtags w (hydrate_with_hash_url w
                 (deduplicate (standardize_url w) (sort_key (\<lambda>x. - score x) submissions_pages))
                 sid ''search'')) i)))))"
proof (rule step_call, simp, rule step_core, simp, simp, rule step_web, simp,
       rule step_rerank, simp, rule step_insert)
  fix x hits pages
  assume "submissions_search w q (map fst cs) = Inr x"
    and "hits = x @ (case uc of None \<Rightarrow> []
                     | Some u \<Rightarrow> concat (map (boosted_hits w (standardize_url w u)) (map fst cs)))"
    and "pages = create_page hits cs
                 @ (if tg then create_page (case webpages_search w q of Inr h \<Rightarrow> h | Inl e \<Rightarrow> []) cs
                    else [])"
  then have "pages = fusion_candidates w q cs tg uc" by (simp add: fusion_candidates_def)
  then show "inserts (\<lambda>pages. pages = fuse w sid (fusion_candidates w q cs tg uc))
          (CacheInsert u sid
              (hydrate_with_hashtags w (hydrate_with_hash_url w
                 (deduplicate (standardize_url w) (sort_key (\<lambda>x. - score x) pages))
                 sid ''search'')) i)"
    by (simp add: fuse_def)
qed

lemma cache_search_inserted:
  "io_inv (\<lambda>s. True) (inserts (\<lambda>pages. pages = fuse w sid (fusion_candidates w q cs tg uc)))
     (cache_search w q sid i cs u own tg uc)"
proof (cases "own \<or> q = []")
  case True
  then show ?thesis
    unfolding cache_search_def
    by (auto intro!: io_inv_intros split: list.splits)
next
  case False
  then show ?thesis
    unfolding cache_search_def Let_def insert_and_return_def[symmetric]
    by (auto intro!: io_inv_bind[where m="io_catch _ _"] io_inv_bind[where m="Cache_search _ _ _ _"]
                     io_inv_bind[where m="io_return (0, [])"]
                     io_inv_catch io_inv_bind[where m="Cache_init _"] io_inv_Cache_init
                     io_inv_Cache_search io_inv_return cache_search_tail)
qed

lemma hydrate_hash_url_core:
  "map item_core (hydrate_with_hash_url w ps sid m) = map item_core ps"
  unfolding hydrate_with_hash_url_def by (rule map_enumerate_field) (simp add: item_core_def)

lemma hydrate_hashtags_core:
  "map item_core (hydrate_with_hashtags w ps) = map item_core ps"
  by (simp add: hydrate_with_hashtags_def item_core_def)

lemma fuse_core:
  "map item_core (fuse w sid cands)
     = map item_core (deduplicate (standardize_url w) (sort_key (\<lambda>x. - score x) cands))"
  by (simp only: fuse_def hydrate_hash_url_core hydrate_hashtags_core)

lemma fuse_image:
  "item_core ` set (fuse w sid cands)
     = item_core ` set (deduplicate (standardize_url w) (sort_key (\<lambda>x. - score x) cands))"
  using fuse_core[of w sid cands] by (metis set_map)

lemma fuse_covers:
  assumes "q \<in> set cands"
  shows "\<exists>p \<in> set (fuse w sid cands).
           standardize_url w (canonical_url p) = standardize_url w (canonical_url q)
           \<and> score q \<le> score p"
proof -
  let ?D = "deduplicate (standardize_url w) (sort_key (\<lambda>x. - score x) cands)"
  from assms have "q \<in> set (sort_key (\<lambda>x. - score x) cands)" by simp
  with deduplicate_keeps_best[of "sort_key (\<lambda>x. - score x) cands" "standardize_url w"]
  obtain p' where p': "p' \<in> set ?D"
    "standardize_url w (canonical_url p') = standardize_url w (canonical_url q)"
    "score q \<le> score p'" by blast
  from p'(1) have "item_core p' \<in> item_core ` set (fuse w sid cands)"
    by (simp add: fuse_image)
  then obtain p where p: "p \<in> set (fuse w sid cands)" "item_core p = item_core p'" by auto
  from p(2) have "canonical_url p = canonical_url p'" "score p = score p'"
    by (simp_all add: item_core_def)
  with p'(2,3) have "standardize_url w (canonical_url p) = standardize_url w (canonical_url q)
           \<and> score q \<le> score p" by simp
  with p(1) show ?thesis by (rule bexI[rotated])
qed





section \<open>Curated content\<close>

lemma boosted_in_candidates:
  assumes "c \<in> set (map fst communities)"
      and "core_find_one w c = Inr (Some content)"
      and "content (standardize_url w target) = Some tags"
      and "submissions_search w (py_join '' '' (list_set w tags)) [c] = Inr core_hits"
      and "h \<in> set core_hits"
  shows "boost w h \<in> set (concat (map (boosted_hits w (standardize_url w target)) (map fst communities)))"
proof -
  from assms(2-5) have "boost w h \<in> set (boosted_hits w (standardize_url w target) c)"
    by (simp add: boosted_hits_def boost_def)
  with assms(1) show ?thesis by auto
qed

text \<open>
  Claim C3. Let the curated content be asked for with a target URL, let a scoped community
  have a core entry for the normalized URL, and let the re-query of the submissions gateway
  on the hashtags of the entry return a hit. Then the hit enters the candidates with 100
  added to its score, by the addition of the floats: every run of the loop over the
  communities that ends returns it boosted, beside all the hits it started with; the item
  of the boosted hit is among the candidates that \<^verbatim>\<open>cache_search\<close> fuses; and the list that
  \<^verbatim>\<open>cache_search\<close> inserts has an item of the hit's normalized URL whose score is at least
  the boosted one. (The curated content is asked for by a page-open search with nothing
  typed; see \<open>page_open_query\<close>.)
\<close>

theorem core_hits_boosted:
  assumes "c \<in> set (map fst communities)"
      and "core_find_one w c = Inr (Some content)"
      and "content (standardize_url w target) = Some tags"
      and "submissions_search w (py_join '' '' (list_set w tags)) [c] = Inr core_hits"
      and "h \<in> set core_hits"
  shows "hit_score (boost w h) = float_add w (hit_score h) 100
       \<and> (\<forall>hits0 s result.
             outcome (core_retrieve w (standardize_url w target) (map fst communities) hits0 s)
               = Inr result
             \<longrightarrow> boost w h \<in> set result \<and> set hits0 \<subseteq> set result)
       \<and> set (create_page [boost w h] communities)
            \<subseteq> set (fusion_candidates w query communities toggle (Some target))
       \<and> (\<forall>u session pages i.
             CacheInsert u session pages i
               \<in> set (calls (cache_search w query sid index communities uid own toggle
                                (Some target) s'))
             \<longrightarrow> pages = fuse w sid (fusion_candidates w query communities toggle (Some target))
                 \<and> (\<exists>p \<in> set pages.
                       standardize_url w (canonical_url p) = standardize_url w (hit_url h)
                       \<and> float_add w (hit_score h) 100 \<le> score p))"
proof (intro conjI allI impI)
  note b = boosted_in_candidates[OF assms]
  show "hit_score (boost w h) = float_add w (hit_score h) 100" by (simp add: boost_def)
  have cand: "set (create_page [boost w h] communities)
            \<subseteq> set (fusion_candidates w query communities toggle (Some target))"
    using b by (auto simp: fusion_candidates_def create_page_def)
  then show "set (create_page [boost w h] communities)
            \<subseteq> set (fusion_candidates w query communities toggle (Some target))" .
  {
    fix hits0 s result
    assume "outcome (core_retrieve w (standardize_url w target) (map fst communities) hits0 s)
               = Inr result"
    then have "result = hits0 @ concat (map (boosted_hits w (standardize_url w target)) (map fst communities))"
      by (rule core_retrieve_result)
    with b show "boost w h \<in> set result" and "set hits0 \<subseteq> set result" by auto
  }
  {
    fix u session pages i
    assume ins: "CacheInsert u session pages i
               \<in> set (calls (cache_search w query sid index communities uid own toggle
                                (Some target) s'))"
    let ?C = "fusion_candidates w query communities toggle (Some target)"
    from cache_search_inserted[of w sid query communities toggle "Some target" index uid own]
    have "list_all (inserts (\<lambda>pages. pages = fuse w sid ?C))
          (calls (cache_search w query sid index communities uid own toggle (Some target) s'))"
      by (simp add: io_inv_def)
    with ins have "inserts (\<lambda>pages. pages = fuse w sid ?C) (CacheInsert u session pages i)"
      unfolding list_all_iff by blast
    then show eq: "pages = fuse w sid ?C" by simp
    let ?q = "\<lparr>source_id = hit_id (boost w h), source_kind = hit_kind (boost w h),
               score = hit_score (boost w h), canonical_url = hit_url (boost w h),
               title = hit_title (boost w h), snippet = hit_snippet (boost w h),
               item_hashtags = [], rank = - 1, result_hash = [], redirect_url = []\<rparr>"
    from cand have "?q \<in> set ?C" by (simp add: create_page_def)
    from fuse_covers[OF this, of w sid] eq
    show "\<exists>p \<in> set pages.
            standardize_url w (canonical_url p) = standardize_url w (hit_url h)
            \<and> float_add w (hit_score h) 100 \<le> score p"
      by (simp add: boost_def)
  }
qed

theorem core_hits_boosted_witness:
  "outcome (core_retrieve example_world_core ''http://a.org'' [home] [hit_A] initial_state)
     = Inr [hit_A, boost example_world_core hit_B]
   \<and> hit_score (boost example_world_core hit_B) = 5 / 10 + 100
   \<and> CacheInsert ''u1'' ''s1''
        (fuse example_world_core ''s1''
           (fusion_candidates example_world_core ''http://a.org'' [(home, ''Home'')] True
              (Some ''http://a.org''))) 0
       \<in> set (calls (cache_search example_world_core ''http://a.org'' ''s1'' 0 [(home, ''Home'')]
                        ''u1'' False True (Some ''http://a.org'') initial_state))
   \<and> page_ids (outcome (search example_world_core example_user example_request_open initial_state))
     = Some [''b1'', ''a1'', ''c2'']"
proof -
  have run: "outcome (core_retrieve example_world_core ''http://a.org'' [home] [hit_A] initial_state)
     = Inr [hit_A, boost example_world_core hit_B]" by code_simp
  have m: "home \<in> set (map fst [(home, ''Home'')])" by simp
  have e1: "core_find_one example_world_core home = Inr (Some example_core)"
    by (simp add: example_world_core_def example_world_def)
  have e2: "example_core (standardize_url example_world_core ''http://a.org'') = Some [''#ml'']"
    by code_simp
  have e3: "submissions_search example_world_core
              (py_join '' '' (list_set example_world_core [''#ml''])) [home] = Inr [hit_B]"
    by code_simp
  have hm: "hit_B \<in> set [hit_B]" by simp
  have s: "hit_score (boost example_world_core hit_B) = 5 / 10 + 100" by code_simp
  have ins: "CacheInsert ''u1'' ''s1''
        (fuse example_world_core ''s1''
           (fusion_candidates example_world_core ''http://a.org'' [(home, ''Home'')] True
              (Some ''http://a.org''))) 0
       \<in> set (calls (cache_search example_world_core ''http://a.org'' ''s1'' 0 [(home, ''Home'')]
                        ''u1'' False True (Some ''http://a.org'') initial_state))" by code_simp
  have p: "page_ids (outcome (search example_world_core example_user example_request_open initial_state))
     = Some [''b1'', ''a1'', ''c2'']" by code_simp
  from core_hits_boosted[OF m e1 e2 e3 hm] run s ins p show ?thesis by blast
qed

end
